theory Spec2Isabelle
  imports Main
begin

section \<open>JavaScript strings\<close>

text \<open>
  A JavaScript string is modelled as a \<^typ>\<open>string\<close>: a list of code units, here restricted
  to the code units below 256. \<open>isWhiteSpace\<close> is the class \<^verbatim>\<open>\s\<close> of a regular expression
  and the set that \<^verbatim>\<open>String.prototype.trim\<close> strips: tab, line feed, vertical tab, form
  feed, carriage return, space and no-break space (the white space above U+00FF is outside
  the character type).
\<close>

definition isWhiteSpace :: "char \<Rightarrow> bool" where
  "isWhiteSpace c = (of_char c \<in> {9::nat, 10, 11, 12, 13, 32, 160})"

text \<open>\<^verbatim>\<open>s.trim()\<close>\<close>

definition trim :: "string \<Rightarrow> string" where
  "trim s = rev (dropWhile isWhiteSpace (rev (dropWhile isWhiteSpace s)))"

text \<open>\<^verbatim>\<open>hay.includes(needle)\<close>\<close>

fun includesStr :: "string \<Rightarrow> string \<Rightarrow> bool" where
  "includesStr [] needle = (needle = [])"
| "includesStr (c # cs) needle = (take (length needle) (c # cs) = needle \<or> includesStr cs needle)"

text \<open>The decimal text of a non-negative integer, as a template literal prints it.\<close>

definition digitChar :: "nat \<Rightarrow> char" where
  "digitChar d = ''0123456789'' ! d"

fun showNat :: "nat \<Rightarrow> string" where
  "showNat n = (if n < 10 then [digitChar n] else showNat (n div 10) @ [digitChar (n mod 10)])"

text \<open>
  The text of \<^verbatim>\<open>timeoutMs/1000\<close> for an integer number of milliseconds: the integer part,
  and the thousandths without their trailing zeros when there are any.
\<close>

definition showSeconds :: "nat \<Rightarrow> string" where
  "showSeconds ms =
     (let frac = rev (dropWhile (\<lambda>c. c = CHR ''0'')
                   (rev [digitChar (ms mod 1000 div 100), digitChar (ms mod 100 div 10),
                         digitChar (ms mod 10)]))
      in showNat (ms div 1000) @ (if frac = [] then [] else CHR ''.'' # frac))"

section \<open>FetchRetryClient: \<^verbatim>\<open>fetchWithRetry\<close>\<close>

record jsError =
  name :: string
  message :: string

record httpResponse =
  status :: nat
  statusText :: string

text \<open>\<^verbatim>\<open>response.ok\<close>: the status is in the range 200 to 299.\<close>

definition ok :: "httpResponse \<Rightarrow> bool" where
  "ok r = (200 \<le> status r \<and> status r \<le> 299)"

text \<open>
  What one call of \<^verbatim>\<open>fetch\<close> does, as the environment decides it: the promise resolves
  with a response, rejects with an error object, or stays unsettled (the server never
  answers). The only option of \<^verbatim>\<open>fetchWithRetry\<close> that changes its control flow is
  \<^verbatim>\<open>options.timeout\<close>; the caller's \<^verbatim>\<open>options.signal\<close> is overwritten by the signal of the
  controller created for the attempt.
\<close>

datatype fetchSettled = Resolved httpResponse | Rejected jsError | Unsettled

record fetchOptions =
  timeout :: "nat option"

text \<open>\<^verbatim>\<open>new Error(`HTTP ${response.status}: ${response.statusText}`)\<close>\<close>

definition httpError :: "httpResponse \<Rightarrow> jsError" where
  "httpError r = \<lparr>name = ''Error'', message = ''HTTP '' @ showNat (status r) @ '': '' @ statusText r\<rparr>"

text \<open>
  \<^verbatim>\<open>new Error(`Request timeout after ${timeoutMs/1000}s`)\<close>, the reason given to
  \<^verbatim>\<open>controller.abort\<close> by the timer; \<^verbatim>\<open>fetch\<close> rejects with the reason of the abort. The
  \<^verbatim>\<open>name\<close> of an object made by \<^verbatim>\<open>new Error\<close> is \<^verbatim>\<open>Error\<close>.
\<close>

definition timeoutError :: "nat \<Rightarrow> jsError" where
  "timeoutError timeoutMs =
     \<lparr>name = ''Error'', message = ''Request timeout after '' @ showSeconds timeoutMs @ ''s''\<rparr>"

datatype fetchResult = Returns httpResponse | Throws "jsError option" | NeverSettles

text \<open>The body of the \<^verbatim>\<open>try\<close> block: one attempt.\<close>

definition attemptOnce :: "fetchOptions \<Rightarrow> fetchSettled \<Rightarrow> fetchResult" where
  "attemptOnce options settled =
     (case settled of
        Resolved response \<Rightarrow>
          if \<not> ok response then Throws (Some (httpError response)) else Returns response
      | Rejected error \<Rightarrow> Throws (Some error)
      | Unsettled \<Rightarrow>
          (case timeout options of
             None \<Rightarrow> NeverSettles
           | Some timeoutMs \<Rightarrow>
               if timeoutMs > 0 then Throws (Some (timeoutError timeoutMs)) else NeverSettles))"

definition isRetryableError :: "jsError \<Rightarrow> bool" where
  "isRetryableError error =
     (name error = ''TypeError'' \<or>
      (name error = ''AbortError'' \<and> message error \<noteq> [] \<and> includesStr (message error) ''timeout'') \<or>
      (message error \<noteq> [] \<and> includesStr (message error) ''ERR_CONNECTION'') \<or>
      (message error \<noteq> [] \<and> includesStr (message error) ''HTTP 5''))"

datatype fetchEvent = Attempt nat | Diagnostics | Wait nat

record fetchRun =
  result :: fetchResult
  trace :: "fetchEvent list"

definition after :: "fetchEvent list \<Rightarrow> fetchRun \<Rightarrow> fetchRun" where
  "after evs run = run\<lparr>trace := evs @ trace run\<rparr>"

text \<open>
  The \<^verbatim>\<open>for\<close> loop from \<open>attempt\<close> on, and the \<^verbatim>\<open>throw lastError\<close> after it. \<open>env\<close> gives
  what the fetch of each attempt does. Every call site passes a natural number of retries
  (0, 2, 3 or the default 3).
\<close>

function retryLoop ::
  "fetchOptions \<Rightarrow> (nat \<Rightarrow> fetchSettled) \<Rightarrow> nat \<Rightarrow> nat \<Rightarrow> nat \<Rightarrow> jsError option \<Rightarrow> fetchRun"
where
  "retryLoop options env maxRetries initialDelay attempt lastError =
     (if attempt \<le> maxRetries then
        (case attemptOnce options (env attempt) of
           Returns response \<Rightarrow> \<lparr>result = Returns response, trace = [Attempt attempt]\<rparr>
         | NeverSettles \<Rightarrow> \<lparr>result = NeverSettles, trace = [Attempt attempt]\<rparr>
         | Throws error \<Rightarrow>
             if attempt = maxRetries then \<lparr>result = Throws error, trace = [Attempt attempt]\<rparr>
             else if \<not> (case error of None \<Rightarrow> False | Some e \<Rightarrow> isRetryableError e)
               then \<lparr>result = Throws error, trace = [Attempt attempt]\<rparr>
             else
               after ([Attempt attempt]
                      @ (if attempt + 1 = maxRetries then [Diagnostics] else [])
                      @ [Wait (initialDelay * 2 ^ attempt)])
                 (retryLoop options env maxRetries initialDelay (attempt + 1) error))
      else \<lparr>result = Throws lastError, trace = []\<rparr>)"
  by pat_completeness auto
termination
  by (relation "measure (\<lambda>(options, env, maxRetries, initialDelay, attempt, lastError).
                  maxRetries + 1 - attempt)") auto

declare retryLoop.simps [simp del] showNat.simps [simp del]

definition fetchWithRetry ::
  "fetchOptions \<Rightarrow> (nat \<Rightarrow> fetchSettled) \<Rightarrow> nat \<Rightarrow> nat \<Rightarrow> fetchRun" where
  "fetchWithRetry options env maxRetries initialDelay =
     retryLoop options env maxRetries initialDelay 0 None"

text \<open>The attempts of a run, and the events other than the diagnostics.\<close>

definition attempts :: "fetchRun \<Rightarrow> nat" where
  "attempts run = length (filter (\<lambda>e. case e of Attempt _ \<Rightarrow> True | _ \<Rightarrow> False) (trace run))"

definition schedule :: "fetchRun \<Rightarrow> fetchEvent list" where
  "schedule run = filter (\<lambda>e. e \<noteq> Diagnostics) (trace run)"

text \<open>
  The attempts \<open>a, a + 1, \<dots>, a + n\<close> with the wait \<open>initialDelay * 2 ^ k\<close> between attempt
  \<open>k\<close> and the next.
\<close>

fun backoff :: "nat \<Rightarrow> nat \<Rightarrow> nat \<Rightarrow> fetchEvent list" where
  "backoff initialDelay a 0 = [Attempt a]"
| "backoff initialDelay a (Suc n) =
     Attempt a # Wait (initialDelay * 2 ^ a) # backoff initialDelay (Suc a) n"

section \<open>FilterPipeline: manual ID lists\<close>

text \<open>The characters matched by the class \<^verbatim>\<open>[,;\s]\<close>.\<close>

definition isSeparator :: "char \<Rightarrow> bool" where
  "isSeparator c = (c = CHR '','' \<or> c = CHR '';'' \<or> isWhiteSpace c)"

text \<open>
  \<^verbatim>\<open>text.split(/[,;\s]+/)\<close>: the pieces of the text between the maximal runs of separators,
  the empty piece before a leading run and after a trailing run included.
\<close>

function split :: "string \<Rightarrow> string list" where
  "split s =
     (let piece = takeWhile (\<lambda>c. \<not> isSeparator c) s;
          rest = dropWhile (\<lambda>c. \<not> isSeparator c) s
      in if rest = [] then [piece] else piece # split (dropWhile isSeparator rest))"
  by pat_completeness auto
termination
proof (relation "measure length")
  show "wf (measure length)" by simp
next
  fix s :: string and piece rest :: string
  assume r: "rest = dropWhile (\<lambda>c. \<not> isSeparator c) s" and ne: "rest \<noteq> []"
  obtain c cs where cons: "rest = c # cs" using ne by (cases rest) auto
  have "isSeparator c" using r cons by (metis hd_dropWhile list.sel(1) ne)
  then have "dropWhile isSeparator rest = dropWhile isSeparator cs" using cons by simp
  then have "length (dropWhile isSeparator rest) < length rest"
    using cons by (simp add: length_dropWhile_le le_imp_less_Suc)
  also have "length rest \<le> length s" using r by (simp add: length_dropWhile_le)
  finally show "(dropWhile isSeparator rest, s) \<in> measure length" by simp
qed

declare split.simps [simp del]

text \<open>
  The errors the pipeline throws. \<open>SkuLimitExceeded n\<close> is the \<^verbatim>\<open>Error\<close> of
  \<^verbatim>\<open>getListFromInput\<close>, whose message says that the limit of 500 is exceeded, that \<open>n\<close>
  values were detected, and that batch processing handles more than 500.
  \<open>ExportFailed\<close> is the \<^verbatim>\<open>Error\<close> of \<^verbatim>\<open>exportBatch\<close> for a response that is not ok, and
  \<open>FetchRejected\<close> a rejection of \<^verbatim>\<open>fetch\<close> itself.
\<close>

datatype pipelineError =
    SkuLimitExceeded nat
  | ExportFailed nat string
  | FilterHttpError nat
  | FetchRejected jsError

text \<open>\<^verbatim>\<open>text.split(/[,;\s]+/).map(s => s.trim()).filter(Boolean)\<close>\<close>

definition listValues :: "string \<Rightarrow> string list" where
  "listValues text = filter (\<lambda>s. s \<noteq> []) (map trim (split text))"

text \<open>
  \<^verbatim>\<open>getListFromInput(input, allowBatching)\<close>, on the value of the input. \<open>Inr None\<close> is
  the \<^verbatim>\<open>null\<close> it returns for an input without values.
\<close>

definition getListFromInput :: "string \<Rightarrow> bool \<Rightarrow> pipelineError + string list option" where
  "getListFromInput inputValue allowBatching =
     (let text = trim inputValue in
      if text = [] then Inr None
      else
        let values = listValues text in
        if length values > 500 \<and> \<not> allowBatching then Inl (SkuLimitExceeded (length values))
        else Inr (if length values > 0 then Some values else None))"

text \<open>The state of the page that the filter pipeline reads.\<close>

record filterPanel =
  skuHijoInput :: string
  skuPadreInput :: string
  ticketFilterInput :: string
  lineamientoFilterInput :: string
  batchProcessHijoCheckbox :: bool
  batchProcessPadreCheckbox :: bool
  extendSkuHijoCheckbox :: bool
  priorityColoringToggle :: "bool option"
  filterSelects :: "(string \<times> string list) list"
  customTextFilterInputs :: "(string \<times> string) list"
  currentBlobFilename :: string
  skuHijoFileLoaded :: bool
  skuPadreFileLoaded :: bool
  currentSelectedDisplayColumns :: "string list"
  currentPage :: nat

record filterPayload =
  blob_filename :: string
  value_filters :: "(string \<times> string list) list"
  use_sku_hijo_file :: bool
  extend_sku_hijo :: bool
  sku_hijo_manual_list :: "string list option"
  use_sku_padre_file :: bool
  sku_padre_manual_list :: "string list option"
  ticket_manual_list :: "string list option"
  lineamiento_manual_list :: "string list option"
  selected_display_columns :: "string list"
  enable_priority_coloring :: bool
  page :: nat
  page_size :: nat
  custom_text_filters :: "(string \<times> string list) list option"

definition PAGE_SIZE :: nat where
  "PAGE_SIZE = 100"

text \<open>
  \<^verbatim>\<open>object[key] = value\<close> on an object kept as the list of its properties in insertion
  order.
\<close>

fun setProperty :: "'k \<Rightarrow> 'v \<Rightarrow> ('k \<times> 'v) list \<Rightarrow> ('k \<times> 'v) list" where
  "setProperty k v [] = [(k, v)]"
| "setProperty k v ((k', v') # kvs) =
     (if k' = k then (k, v) # kvs else (k', v') # setProperty k v kvs)"

text \<open>The \<^verbatim>\<open>forEach\<close> over the select controls: a column is kept when a value is selected.\<close>

fun collectValueFilters ::
  "(string \<times> string list) list \<Rightarrow> (string \<times> string list) list \<Rightarrow> (string \<times> string list) list"
where
  "collectValueFilters [] valueFiltersPayload = valueFiltersPayload"
| "collectValueFilters ((colName, selectedOptions) # selects) valueFiltersPayload =
     collectValueFilters selects
       (if length selectedOptions > 0 then setProperty colName selectedOptions valueFiltersPayload
        else valueFiltersPayload)"

text \<open>The \<^verbatim>\<open>forEach\<close> over the custom text inputs; the first list over the limit throws.\<close>

fun collectCustomTextFilters ::
  "(string \<times> string) list \<Rightarrow> (string \<times> string list) list
     \<Rightarrow> pipelineError + (string \<times> string list) list"
where
  "collectCustomTextFilters [] customTextFilters = Inr customTextFilters"
| "collectCustomTextFilters ((columnName, inputValue) # inputs) customTextFilters =
     (case getListFromInput inputValue False of
        Inl e \<Rightarrow> Inl e
      | Inr None \<Rightarrow> collectCustomTextFilters inputs customTextFilters
      | Inr (Some values) \<Rightarrow>
          collectCustomTextFilters inputs (setProperty columnName values customTextFilters))"

text \<open>\<^verbatim>\<open>getFilterPayload()\<close>; the properties of the object are evaluated in the order written.\<close>

definition getFilterPayload :: "filterPanel \<Rightarrow> pipelineError + filterPayload" where
  "getFilterPayload panel =
     (case collectCustomTextFilters (customTextFilterInputs panel) [] of
        Inl e \<Rightarrow> Inl e
      | Inr customTextFilters \<Rightarrow>
     (case getListFromInput (skuHijoInput panel) (batchProcessHijoCheckbox panel) of
        Inl e \<Rightarrow> Inl e
      | Inr hijoList \<Rightarrow>
     (case getListFromInput (skuPadreInput panel) (batchProcessPadreCheckbox panel) of
        Inl e \<Rightarrow> Inl e
      | Inr padreList \<Rightarrow>
     (case getListFromInput (ticketFilterInput panel) False of
        Inl e \<Rightarrow> Inl e
      | Inr ticketList \<Rightarrow>
     (case getListFromInput (lineamientoFilterInput panel) False of
        Inl e \<Rightarrow> Inl e
      | Inr lineamientoList \<Rightarrow>
          Inr \<lparr>blob_filename = currentBlobFilename panel,
               value_filters = collectValueFilters (filterSelects panel) [],
               use_sku_hijo_file = skuHijoFileLoaded panel,
               extend_sku_hijo = extendSkuHijoCheckbox panel,
               sku_hijo_manual_list = hijoList,
               use_sku_padre_file = skuPadreFileLoaded panel,
               sku_padre_manual_list = padreList,
               ticket_manual_list = ticketList,
               lineamiento_manual_list = lineamientoList,
               selected_display_columns = currentSelectedDisplayColumns panel,
               enable_priority_coloring =
                 (case priorityColoringToggle panel of None \<Rightarrow> False | Some checked \<Rightarrow> checked),
               page = currentPage panel,
               page_size = PAGE_SIZE,
               custom_text_filters =
                 (if length customTextFilters > 0 then Some customTextFilters else None)\<rparr>)))))"

subsection \<open>Batch validation\<close>

datatype batchType = Hijo | Padre

datatype validationError = BatchConflict

text \<open>
  The object returned by \<^verbatim>\<open>validateBatchFilters\<close>. Its first \<^verbatim>\<open>return\<close> gives only
  \<^verbatim>\<open>valid\<close>: the other properties are then \<^verbatim>\<open>undefined\<close>, read here as they are used
  (\<open>needsBatching\<close> false). \<open>BatchConflict\<close> is the message that both filters cannot be
  processed in batches at the same time.
\<close>

record batchValidation =
  valid :: bool
  error :: "validationError option"
  needsBatching :: bool
  batchType :: "batchType option"
  batchValues :: "string list"
  totalBatches :: nat

definition validateBatchFilters :: "filterPanel \<Rightarrow> batchValidation" where
  "validateBatchFilters panel =
     (let hijoText = trim (skuHijoInput panel);
          padreText = trim (skuPadreInput panel)
      in
      if hijoText = [] \<and> padreText = [] then
        \<lparr>valid = True, error = None, needsBatching = False, batchType = None,
         batchValues = [], totalBatches = 0\<rparr>
      else
        let hijoValues = (if hijoText \<noteq> [] then filter (\<lambda>s. s \<noteq> []) (split hijoText) else []);
            padreValues = (if padreText \<noteq> [] then filter (\<lambda>s. s \<noteq> []) (split padreText) else []);
            hijoBatchEnabled = batchProcessHijoCheckbox panel;
            padreBatchEnabled = batchProcessPadreCheckbox panel;
            hijoExceeds500 = (length hijoValues > 500);
            padreExceeds500 = (length padreValues > 500)
        in
        if hijoBatchEnabled \<and> padreBatchEnabled \<and> hijoExceeds500 \<and> padreExceeds500 then
          \<lparr>valid = False, error = Some BatchConflict, needsBatching = False, batchType = None,
           batchValues = [], totalBatches = 0\<rparr>
        else
          let (batchType, batchValues) =
                (if hijoBatchEnabled \<and> hijoExceeds500 then (Some Hijo, hijoValues)
                 else if padreBatchEnabled \<and> padreExceeds500 then (Some Padre, padreValues)
                 else (None, []))
          in
          \<lparr>valid = True, error = None, needsBatching = (batchType \<noteq> None),
           batchType = batchType, batchValues = batchValues,
           totalBatches =
             (if length batchValues > 0 then (length batchValues + 499) div 500 else 0)\<rparr>)"

subsection \<open>Batches\<close>

text \<open>
  The loop \<^verbatim>\<open>for (let i = 0; i < batchValues.length; i += 500)\<close> that pushes
  \<^verbatim>\<open>batchValues.slice(i, i + 500)\<close>, from index \<open>i\<close> on.
\<close>

function batchesFrom :: "nat \<Rightarrow> 'a list \<Rightarrow> 'a list list" where
  "batchesFrom i vals =
     (if i < length vals
      then take 500 (drop i vals) # batchesFrom (i + 500) vals
      else [])"
  by pat_completeness auto
termination
  by (relation "measure (\<lambda>(i, vals). length vals - i)") auto

declare batchesFrom.simps [simp del]

section \<open>Responses of the filter endpoint\<close>

type_synonym row = "(string \<times> string) list"

record priorityInfo =
  has_priority_column :: bool
  column_name :: "string option"

text \<open>
  The JSON of \<^verbatim>\<open>/api/data/filter\<close>, as far as the pipeline reads it; \<open>None\<close> is a
  property that is absent or null.
\<close>

record filterResult =
  data :: "row list option"
  columns_in_data :: "string list option"
  row_count_filtered :: "nat option"
  skus_no_encontrados_hijo :: "string list option"
  skus_no_encontrados_padre :: "string list option"
  tickets_no_encontrados :: "string list option"
  lineamientos_no_encontrados :: "string list option"
  result_has_priority_column :: "bool option"
  priority_info :: "priorityInfo option"

text \<open>\<^verbatim>\<open>value || []\<close> and \<^verbatim>\<open>value || 0\<close>\<close>

definition orEmpty :: "'a list option \<Rightarrow> 'a list" where
  "orEmpty v = (case v of None \<Rightarrow> [] | Some xs \<Rightarrow> xs)"

definition orZero :: "nat option \<Rightarrow> nat" where
  "orZero v = (case v of None \<Rightarrow> 0 | Some n \<Rightarrow> n)"

text \<open>
  What a plain \<^verbatim>\<open>fetch\<close> followed by the reading of its body gives: a rejection, a
  response that is not ok (its status and its text), or the body of an ok response.
\<close>

datatype 'a fetched = Rejects jsError | Fails nat string | Succeeds 'a

section \<open>LazyTableRenderer\<close>


definition LAZY_LOAD_INITIAL_SIZE :: nat where
  "LAZY_LOAD_INITIAL_SIZE = 100"

text \<open>
  The body of the table. \<open>rows\<close> are the data rows rendered so far, in order;
  \<open>placeholder\<close> is the single row that says there is no data; \<open>sentinel\<close> is the trailing
  row of class \<^verbatim>\<open>load-more-trigger-row\<close>, when there is one, with what it shows and whether
  it is displayed (\<^verbatim>\<open>style.display\<close> is not \<^verbatim>\<open>none\<close>).
\<close>

datatype sentinelContent = Trigger | LoadingMore | LoadError

record sentinelRow =
  content :: sentinelContent
  displayed :: bool

record 'r tableBody =
  rows :: "'r list"
  placeholder :: bool
  sentinel :: "sentinelRow option"

text \<open>
  \<^verbatim>\<open>renderDataTable(data, columns)\<close> on the body of the table (the table elements exist).
  \<^verbatim>\<open>renderTableRows\<close> appends one row for each element of its argument;
  \<^verbatim>\<open>setupLazyLoadTrigger\<close> appends the sentinel and has the observer watch it.
\<close>

definition renderDataTable :: "'r list \<Rightarrow> 'r tableBody" where
  "renderDataTable dat =
     (if length dat = 0 then \<lparr>rows = [], placeholder = True, sentinel = None\<rparr>
      else if length dat > LAZY_LOAD_INITIAL_SIZE then
        \<lparr>rows = take LAZY_LOAD_INITIAL_SIZE dat, placeholder = False,
         sentinel = Some \<lparr>content = Trigger, displayed = True\<rparr>\<rparr>
      else \<lparr>rows = dat, placeholder = False, sentinel = None\<rparr>)"






section \<open>Batch processing\<close>

text \<open>What the page does that a user or the backend can observe, in the order it does it.\<close>

datatype endpoint =
    FilterVisibility string
  | DataFilter filterPayload
  | DataExport filterPayload

datatype uiEvent =
    Request endpoint
  | ConflictAlert "validationError option"
  | BatchErrorAlert pipelineError
  | FilterErrorStatus pipelineError
  | EmptyResultsModal nat
  | PartialResultsModal nat nat nat
  | BatchModalShown
  | BatchModalHidden
  | BatchDownloaded nat
  | Delay nat
  | BatchCompleted nat nat

text \<open>
  The module variables of batch processing: \<^verbatim>\<open>batchProcessCancelled\<close> and the two lists
  of \<^verbatim>\<open>allBatchNotFoundSkus\<close>.
\<close>

record batchVars =
  batchProcessCancelled :: bool
  notFoundHijo :: "string list"
  notFoundPadre :: "string list"

text \<open>
  What happens around one batch: whether the user has pressed the cancel button when the
  loop reaches the batch, and what the two requests of \<^verbatim>\<open>exportBatch\<close> give. The user
  presses the download button of every batch that is ready.
\<close>

record batchStep =
  cancelPressed :: bool
  filterFetch :: "filterResult fetched"
  exportFetch :: "unit fetched"

text \<open>
  \<^verbatim>\<open>skus.forEach(sku => { if (!list.includes(sku)) list.push(sku) })\<close>
\<close>

fun pushMissing :: "string list \<Rightarrow> string list \<Rightarrow> string list" where
  "pushMissing [] acc = acc"
| "pushMissing (sku # skus) acc =
     pushMissing skus (if sku \<in> set acc then acc else acc @ [sku])"

text \<open>
  \<^verbatim>\<open>exportBatch(batchPayload, batchNumber, totalBatches, batchType)\<close>: the variables and the
  events after it, or the error it throws with the variables and events up to there.
\<close>

definition exportBatch ::
  "filterPayload \<Rightarrow> nat \<Rightarrow> batchStep \<Rightarrow> batchVars \<times> uiEvent list
     \<Rightarrow> (pipelineError \<times> batchVars \<times> uiEvent list) + (batchVars \<times> uiEvent list)"
where
  "exportBatch batchPayload batchNumber step st =
     (let (vars, evs) = st;
          evs1 = evs @ [Request (DataFilter batchPayload)]
      in
      case filterFetch step of
        Rejects e \<Rightarrow> Inl (FetchRejected e, vars, evs1)
      | other \<Rightarrow>
          let vars1 =
                (case other of
                   Succeeds filterResult \<Rightarrow>
                     vars\<lparr>notFoundHijo :=
                            pushMissing (orEmpty (skus_no_encontrados_hijo filterResult))
                              (notFoundHijo vars),
                          notFoundPadre :=
                            pushMissing (orEmpty (skus_no_encontrados_padre filterResult))
                              (notFoundPadre vars)\<rparr>
                 | _ \<Rightarrow> vars);
              evs2 = evs1 @ [Request (DataExport batchPayload)]
          in
          case exportFetch step of
            Rejects e \<Rightarrow> Inl (FetchRejected e, vars1, evs2)
          | Fails st txt \<Rightarrow> Inl (ExportFailed st txt, vars1, evs2)
          | Succeeds blob \<Rightarrow> Inr (vars1, evs2 @ [BatchDownloaded batchNumber]))"

text \<open>
  The loop over the batches, from batch number \<open>i + 1\<close> on. \<open>env\<close> gives the step of each
  batch by its index.
\<close>

fun processBatches ::
  "filterPanel \<Rightarrow> batchType option \<Rightarrow> (nat \<Rightarrow> batchStep) \<Rightarrow> nat \<Rightarrow> string list list
     \<Rightarrow> batchVars \<times> uiEvent list
     \<Rightarrow> (pipelineError \<times> batchVars \<times> uiEvent list) + (batchVars \<times> uiEvent list)"
where
  "processBatches panel type env i [] st = Inr st"
| "processBatches panel type env i (batch # batches) st =
     (let (vars0, evs) = st;
          vars = vars0\<lparr>batchProcessCancelled :=
                         batchProcessCancelled vars0 \<or> cancelPressed (env i)\<rparr>
      in
      if batchProcessCancelled vars then Inr (vars, evs)
      else
        case getFilterPayload panel of
          Inl e \<Rightarrow> Inl (e, vars, evs)
        | Inr basePayload \<Rightarrow>
            let batchPayload =
                  (case type of
                     Some Hijo \<Rightarrow> basePayload\<lparr>sku_hijo_manual_list := Some batch\<rparr>
                   | Some Padre \<Rightarrow> basePayload\<lparr>sku_padre_manual_list := Some batch\<rparr>
                   | None \<Rightarrow> basePayload)
            in
            case exportBatch batchPayload (i + 1) (env i) (vars, evs) of
              Inl err \<Rightarrow> Inl err
            | Inr (vars', evs') \<Rightarrow>
                processBatches panel type env (i + 1) batches
                  (vars', if batches \<noteq> [] \<and> \<not> batchProcessCancelled vars'
                          then evs' @ [Delay 500] else evs'))"

text \<open>\<^verbatim>\<open>handleBatchProcessing(validation)\<close>\<close>

definition handleBatchProcessing ::
  "filterPanel \<Rightarrow> batchValidation \<Rightarrow> (nat \<Rightarrow> batchStep) \<Rightarrow> batchVars \<times> uiEvent list
     \<Rightarrow> batchVars \<times> uiEvent list"
where
  "handleBatchProcessing panel validation env st =
     (let (vars0, evs0) = st;
          vars = vars0\<lparr>batchProcessCancelled := False, notFoundHijo := [], notFoundPadre := []\<rparr>;
          evs = evs0 @ [BatchModalShown];
          batches = batchesFrom 0 (batchValues validation)
      in
      case processBatches panel (batchType validation) env 0 batches (vars, evs) of
        Inl (e, vars', evs') \<Rightarrow> (vars', evs' @ [BatchModalHidden, BatchErrorAlert e])
      | Inr (vars', evs') \<Rightarrow>
          if \<not> batchProcessCancelled vars' then
            (vars', evs' @ [BatchCompleted (totalBatches validation)
                              (length (notFoundHijo vars') + length (notFoundPadre vars'))])
          else (vars', evs' @ [BatchModalHidden]))"



section \<open>FilterPipeline: applying the filters\<close>

record fileInfo =
  displayName :: string
  fileName :: string
  columns :: "string list"
  rowCount :: nat
  cache_ttl_seconds :: nat

text \<open>An entry of \<^verbatim>\<open>dataSourceCache\<close>, as \<^verbatim>\<open>handleDataLoad\<close> creates it.\<close>

record cacheEntry =
  fileInfo :: fileInfo
  filterOptions :: "(string \<times> string list) list"
  filterConfig :: "string list"
  ttl :: nat
  displayData :: "row list"
  filteredRowCount :: nat
  valueFilters :: "(string \<times> string list) list"
  selectedColumns :: "string list"
  entryCurrentPage :: nat
  hasPriorityColumn :: bool
  priorityInfo :: "priorityInfo option"

text \<open>
  An entry of \<^verbatim>\<open>viewStateCache\<close>: the rendered table, the values of the four text
  filters and the source of the saved application state.
\<close>

record viewSnapshot =
  tableHTML :: "row tableBody"
  filterStates :: "string \<times> string \<times> string \<times> string"
  appStateBlobDisplayName :: string

text \<open>
  The state of the page: the selected source, the filter panel, the two caches (objects
  keyed by the name of the source), the body of the table, the variables of batch
  processing, and the events so far.
\<close>

record app =
  currentBlobDisplayName :: string
  panel :: filterPanel
  dataSourceCache :: "string \<rightharpoonup> cacheEntry"
  viewStateCache :: "string \<rightharpoonup> viewSnapshot"
  table :: "row tableBody"
  batchVars :: batchVars
  events :: "uiEvent list"

definition emit :: "uiEvent list \<Rightarrow> app \<Rightarrow> app" where
  "emit evs a = a\<lparr>events := events a @ evs\<rparr>"

text \<open>
  The classification of the values not found, in \<^verbatim>\<open>handleApplyFilters\<close>, from the number
  of values not found (the lengths of the four lists of the result) and the number found
  (\<^verbatim>\<open>result.row_count_filtered || 0\<close>): the modal that is shown for a result, if any. \<open>EmptyResultsModal totalBuscados\<close> is
  \<^verbatim>\<open>mostrarModalResultadoVacio\<close>, and \<open>PartialResultsModal totalBuscados totalEncontrados
  totalNoEncontrados\<close> is \<^verbatim>\<open>mostrarModalResultadoParcial\<close>.
\<close>

definition totalNoEncontrados :: "filterResult \<Rightarrow> nat" where
  "totalNoEncontrados res =
     (let noEncontradosHijo = orEmpty (skus_no_encontrados_hijo res);
          noEncontradosPadre = orEmpty (skus_no_encontrados_padre res);
          ticketsNoEncontrados = orEmpty (tickets_no_encontrados res);
          lineamientosNoEncontrados = orEmpty (lineamientos_no_encontrados res);
          skusNoEncontrados = noEncontradosHijo @ noEncontradosPadre
      in length skusNoEncontrados + length ticketsNoEncontrados
           + length lineamientosNoEncontrados)"

definition totalEncontrados :: "filterResult \<Rightarrow> nat" where
  "totalEncontrados res = orZero (row_count_filtered res)"

definition notFoundModal :: "filterResult \<Rightarrow> uiEvent option" where
  "notFoundModal res =
     (if totalNoEncontrados res > 0 then
        let totalBuscados = totalNoEncontrados res + totalEncontrados res in
        if totalEncontrados res = 0 then Some (EmptyResultsModal totalBuscados)
        else Some (PartialResultsModal totalBuscados (totalEncontrados res)
                     (totalNoEncontrados res))
      else None)"

text \<open>
  What the environment gives to one call of \<^verbatim>\<open>handleApplyFilters\<close>: the answer of the
  filter endpoint, and the steps of the batches when batch processing starts.
\<close>

record applyEnv =
  applyFetch :: "filterResult fetched"
  batchEnv :: "nat \<Rightarrow> batchStep"

text \<open>
  \<^verbatim>\<open>handleApplyFilters(page, isInitialLoad)\<close>. \<open>FilterHttpError\<close> stands for the
  \<^verbatim>\<open>Error\<close> thrown for a response that is not ok.
\<close>

definition handleApplyFilters :: "applyEnv \<Rightarrow> nat \<Rightarrow> bool \<Rightarrow> app \<Rightarrow> app" where
  "handleApplyFilters env pg isInitialLoad a =
     (let sourceName = currentBlobDisplayName a in
      if sourceName = [] \<or> dataSourceCache a sourceName = None then a
      else
        let a1 = (if isInitialLoad then emit [Request (FilterVisibility sourceName)] a else a);
            a2 = a1\<lparr>panel := (panel a1)\<lparr>currentPage := pg\<rparr>\<rparr>;
            batchValidation = validateBatchFilters (panel a2)
        in
        if \<not> valid batchValidation then emit [ConflictAlert (error batchValidation)] a2
        else if needsBatching batchValidation then
          (let (vars, evs) =
                 handleBatchProcessing (panel a2) batchValidation (batchEnv env)
                   (batchVars a2, events a2)
           in a2\<lparr>batchVars := vars, events := evs\<rparr>)
        else
          (case getFilterPayload (panel a2) of
             Inl e \<Rightarrow> emit [FilterErrorStatus e] a2
           | Inr payload \<Rightarrow>
               let a3 = emit [Request (DataFilter payload)] a2 in
               (case applyFetch env of
                  Rejects e \<Rightarrow> emit [FilterErrorStatus (FetchRejected e)] a3
                | Fails st txt \<Rightarrow> emit [FilterErrorStatus (FilterHttpError st)] a3
                | Succeeds res \<Rightarrow>
                    let a4 = emit (case notFoundModal res of None \<Rightarrow> [] | Some m \<Rightarrow> [m]) a3;
                        a5 =
                          (case dataSourceCache a4 sourceName of
                             None \<Rightarrow> a4
                           | Some cacheEntry \<Rightarrow>
                               a4\<lparr>dataSourceCache := (dataSourceCache a4)(sourceName \<mapsto>
                                    cacheEntry\<lparr>displayData := orEmpty (data res),
                                               filteredRowCount := orZero (row_count_filtered res),
                                               valueFilters := value_filters payload,
                                               selectedColumns := selected_display_columns payload,
                                               entryCurrentPage := pg,
                                               hasPriorityColumn :=
                                                 (case result_has_priority_column res of
                                                    None \<Rightarrow> False | Some b \<Rightarrow> b),
                                               priorityInfo := priority_info res\<rparr>)\<rparr>)
                    in a5\<lparr>table := renderDataTable (orEmpty (data res))\<rparr>)))"

section \<open>SourceCache: \<^verbatim>\<open>handleDataLoad\<close>\<close>

text \<open>\<^verbatim>\<open>s.toLowerCase()\<close> on the code units below 256.\<close>

definition lowerChar :: "char \<Rightarrow> char" where
  "lowerChar c =
     (let n = (of_char c :: nat) in
      if (65 \<le> n \<and> n \<le> 90) \<or> (192 \<le> n \<and> n \<le> 222 \<and> n \<noteq> 215) then char_of (n + 32) else c)"

definition toLowerCase :: "string \<Rightarrow> string" where
  "toLowerCase s = map lowerChar s"

text \<open>The JSON of the settings endpoint and of the load endpoint, as far as they are read.\<close>

record settingsJson =
  hide_columns :: "string list option"
  filter_columns :: "string list option"

record loadJson =
  payload_columns :: "string list option"
  row_count_original :: "nat option"
  payload_cache_ttl_seconds :: "nat option"
  filter_options :: "(string \<times> string list) list option"
  cache_decision :: "string option"










text \<open>The entry that \<^verbatim>\<open>handleDataLoad\<close> stores for a payload whose columns are an array.\<close>

definition newCacheEntry ::
  "string \<Rightarrow> string \<Rightarrow> settingsJson \<Rightarrow> loadJson \<Rightarrow> string list \<Rightarrow> cacheEntry" where
  "newCacheEntry blobDisplayName blobFilename blobSettings dataPayload cols =
     (let ttlSeconds =
            (case payload_cache_ttl_seconds dataPayload of
               None \<Rightarrow> 300 | Some n \<Rightarrow> if n = 0 then 300 else n)
      in
      \<lparr>fileInfo =
         \<lparr>displayName = blobDisplayName,
          fileName = blobFilename,
          columns = map toLowerCase cols,
          rowCount = orZero (row_count_original dataPayload),
          cache_ttl_seconds = ttlSeconds\<rparr>,
       filterOptions = orEmpty (filter_options dataPayload),
       filterConfig = map toLowerCase (orEmpty (filter_columns blobSettings)),
       ttl = ttlSeconds,
       displayData = [],
       filteredRowCount = 0,
       valueFilters = [],
       selectedColumns = [],
       entryCurrentPage = 1,
       hasPriorityColumn = False,
       priorityInfo = None\<rparr>)"





section \<open>Text filters: listeners and debouncing\<close>


datatype textFilter = SkuHijo | SkuPadre | Ticket | Lineamiento


text \<open>
  One call of \<^verbatim>\<open>handleApplyFilters\<close>, as the listeners and the timer make it: its two
  arguments, and the values that the four text filters have when it is called.
\<close>

record applyCall =
  callPage :: nat
  callIsInitialLoad :: bool
  callValues :: "textFilter \<Rightarrow> string"

text \<open>
  The text filters over time. \<open>now\<close> is the clock in milliseconds; \<open>timeouts\<close> are the
  timeouts of \<^verbatim>\<open>debounceFilterUpdate\<close> that are registered and have neither run nor been
  cleared, each with its identifier and the time it is due; \<open>filterDebounceTimer\<close> is the
  variable of that name; \<open>pendingFilterUpdates\<close> is the set of that name, in insertion
  order; \<open>pendingInputs\<close> are the inputs that carry the class \<^verbatim>\<open>filter-input-pending\<close>.
\<close>

record filterClock =
  now :: nat
  nextTimeoutId :: nat
  timeouts :: "(nat \<times> nat) list"
  filterDebounceTimer :: "nat option"
  pendingFilterUpdates :: "string list"
  pendingInputs :: "textFilter list"
  inputValues :: "textFilter \<Rightarrow> string"
  applyCalls :: "applyCall list"




text \<open>\<^verbatim>\<open>clearTimeout(id)\<close>\<close>

definition clearTimeout :: "nat \<Rightarrow> filterClock \<Rightarrow> filterClock" where
  "clearTimeout ident c = c\<lparr>timeouts := filter (\<lambda>(i, due). i \<noteq> ident) (timeouts c)\<rparr>"



text \<open>\<^verbatim>\<open>cancelPendingFilterUpdates()\<close>\<close>

definition cancelPendingFilterUpdates :: "filterClock \<Rightarrow> filterClock" where
  "cancelPendingFilterUpdates c =
     (let c1 = (case filterDebounceTimer c of
                  None \<Rightarrow> c
                | Some ident \<Rightarrow> (clearTimeout ident c)\<lparr>filterDebounceTimer := None\<rparr>)
      in c1\<lparr>pendingFilterUpdates := [], pendingInputs := []\<rparr>)"







text \<open>The payloads of the export requests among some events, in order.\<close>

definition exportedPayloads :: "uiEvent list \<Rightarrow> filterPayload list" where
  "exportedPayloads evs =
     List.map_filter (\<lambda>e. case e of Request (DataExport p) \<Rightarrow> Some p | _ \<Rightarrow> None) evs"

text \<open>A page with a source selected on which nothing has been entered.\<close>

definition blankPanel :: filterPanel where
  "blankPanel =
     \<lparr>skuHijoInput = [], skuPadreInput = [], ticketFilterInput = [],
      lineamientoFilterInput = [], batchProcessHijoCheckbox = False,
      batchProcessPadreCheckbox = False, extendSkuHijoCheckbox = False,
      priorityColoringToggle = Some False, filterSelects = [], customTextFilterInputs = [],
      currentBlobFilename = ''universo_peru.parquet'', skuHijoFileLoaded = False,
      skuPadreFileLoaded = False, currentSelectedDisplayColumns = [], currentPage = 1\<rparr>"

text \<open>
  The payload of a batch in \<^verbatim>\<open>handleBatchProcessing\<close>: the base payload with the list of
  the batch type replaced by the batch.
\<close>

definition withBatch :: "batchType option \<Rightarrow> filterPayload \<Rightarrow> string list \<Rightarrow> filterPayload" where
  "withBatch type basePayload batch =
     (case type of
        Some Hijo \<Rightarrow> basePayload\<lparr>sku_hijo_manual_list := Some batch\<rparr>
      | Some Padre \<Rightarrow> basePayload\<lparr>sku_padre_manual_list := Some batch\<rparr>
      | None \<Rightarrow> basePayload)"

section \<open>Sample states\<close>

text \<open>The text of the values \<open>ws\<close> as a user types them, a comma after each.\<close>

definition commaList :: "string list \<Rightarrow> string" where
  "commaList ws = concat (map (\<lambda>w. w @ '','') ws)"

text \<open>A result of the filter endpoint that reports the given SKUs as not found.\<close>

definition resultNotFound :: "string list \<Rightarrow> string list \<Rightarrow> nat \<Rightarrow> filterResult" where
  "resultNotFound hijo padre found =
     \<lparr>data = Some [], columns_in_data = Some [], row_count_filtered = Some found,
      skus_no_encontrados_hijo = Some hijo, skus_no_encontrados_padre = Some padre,
      tickets_no_encontrados = None, lineamientos_no_encontrados = None,
      result_has_priority_column = None, priority_info = None\<rparr>"

text \<open>
  A batch whose two requests succeed, the filter request reporting the SKU 9999 as not
  found, and the environment in which every batch is such a batch.
\<close>

definition sampleStep :: batchStep where
  "sampleStep =
     \<lparr>cancelPressed = False,
      filterFetch = Succeeds (resultNotFound [''9999''] [] 0),
      exportFetch = Succeeds ()\<rparr>"

definition sampleApplyEnv :: applyEnv where
  "sampleApplyEnv =
     \<lparr>applyFetch = Succeeds (resultNotFound [] [] 0), batchEnv = (\<lambda>i. sampleStep)\<rparr>"

text \<open>The page after the source UNIVERSO PERU has been loaded.\<close>

definition loadedApp :: app where
  "loadedApp =
     \<lparr>currentBlobDisplayName = ''UNIVERSO PERU'',
      panel = blankPanel,
      dataSourceCache =
        [''UNIVERSO PERU'' \<mapsto>
           newCacheEntry ''UNIVERSO PERU'' ''universo_peru.parquet''
             \<lparr>hide_columns = None, filter_columns = None\<rparr>
             \<lparr>payload_columns = Some [''SKU''], row_count_original = Some 3,
              payload_cache_ttl_seconds = None, filter_options = None,
              cache_decision = None\<rparr>
             [''SKU'']],
      viewStateCache = Map.empty,
      table = \<lparr>rows = [], placeholder = True, sentinel = None\<rparr>,
      batchVars = \<lparr>batchProcessCancelled = False, notFoundHijo = [], notFoundPadre = []\<rparr>,
      events = []\<rparr>"

text \<open>Neither list of the SKUs not found holds a SKU twice.\<close>

definition noDuplicates :: "batchVars \<Rightarrow> bool" where
  "noDuplicates vars \<longleftrightarrow> distinct (notFoundHijo vars) \<and> distinct (notFoundPadre vars)"


text \<open>
  Two cache entries hold the same loaded source: they agree on what \<^verbatim>\<open>handleDataLoad\<close>
  takes from the responses of the settings and load endpoints.
\<close>

definition sameSource :: "cacheEntry \<Rightarrow> cacheEntry \<Rightarrow> bool" where
  "sameSource e e' \<longleftrightarrow>
     fileInfo e = fileInfo e' \<and> filterOptions e = filterOptions e'
     \<and> filterConfig e = filterConfig e' \<and> ttl e = ttl e'"






section \<open>Properties of \<^verbatim>\<open>fetchWithRetry\<close>\<close>

lemmas fetch_eval = fetchWithRetry_def retryLoop.simps attemptOnce_def ok_def httpError_def
  timeoutError_def showSeconds_def showNat.simps digitChar_def isRetryableError_def after_def attempts_def
  schedule_def

lemma retryLoop_attempts:
  "attempts (retryLoop options env maxRetries initialDelay attempt lastError)
     \<le> maxRetries + 1 - attempt"
proof (induction options env maxRetries initialDelay attempt lastError rule: retryLoop.induct)
  case (1 options env maxRetries initialDelay attempt lastError)
  show ?case
    using 1 by (subst retryLoop.simps)
      (auto simp: attempts_def after_def split: fetchResult.splits option.splits)
qed

lemma retryLoop_attempts_pos:
  "attempt \<le> maxRetries \<Longrightarrow>
   0 < attempts (retryLoop options env maxRetries initialDelay attempt lastError)"
  by (subst retryLoop.simps)
     (auto simp: attempts_def after_def split: fetchResult.splits option.splits)

text \<open>
  A run either stops at the attempt it starts with, or that attempt throws a retryable
  error before the last permitted attempt and the run goes on after the wait.
\<close>

lemma retryLoop_cases:
  assumes "attempt \<le> maxRetries"
  obtains
    (stop) "retryLoop options env maxRetries initialDelay attempt lastError
              = \<lparr>result = attemptOnce options (env attempt), trace = [Attempt attempt]\<rparr>"
  | (retry) e where "attemptOnce options (env attempt) = Throws (Some e)"
      and "isRetryableError e" and "attempt + 1 \<le> maxRetries"
      and "retryLoop options env maxRetries initialDelay attempt lastError
             = after ([Attempt attempt]
                      @ (if attempt + 1 = maxRetries then [Diagnostics] else [])
                      @ [Wait (initialDelay * 2 ^ attempt)])
                 (retryLoop options env maxRetries initialDelay (attempt + 1) (Some e))"
proof (cases "\<exists>e. attemptOnce options (env attempt) = Throws (Some e) \<and> isRetryableError e
                \<and> attempt \<noteq> maxRetries")
  case False
  then have "retryLoop options env maxRetries initialDelay attempt lastError
               = \<lparr>result = attemptOnce options (env attempt), trace = [Attempt attempt]\<rparr>"
    using assms by (subst retryLoop.simps) (auto split: fetchResult.splits option.splits)
  then show ?thesis by (rule stop)
next
  case True
  then obtain e where e: "attemptOnce options (env attempt) = Throws (Some e)"
    "isRetryableError e" "attempt \<noteq> maxRetries" by blast
  have "retryLoop options env maxRetries initialDelay attempt lastError
          = after ([Attempt attempt]
                   @ (if attempt + 1 = maxRetries then [Diagnostics] else [])
                   @ [Wait (initialDelay * 2 ^ attempt)])
              (retryLoop options env maxRetries initialDelay (attempt + 1) (Some e))"
    using assms e by (subst retryLoop.simps) simp
  with e assms show ?thesis by (intro retry[of e]) auto
qed

lemma retryLoop_schedule:
  "attempt \<le> maxRetries \<Longrightarrow>
   schedule (retryLoop options env maxRetries initialDelay attempt lastError)
     = backoff initialDelay attempt
         (attempts (retryLoop options env maxRetries initialDelay attempt lastError) - 1)"
proof (induction "maxRetries - attempt" arbitrary: attempt lastError)
  case 0
  from "0.prems" show ?case
  proof (cases rule: retryLoop_cases[of attempt maxRetries options env initialDelay lastError])
    case stop
    then show ?thesis by (simp add: schedule_def attempts_def)
  next
    case (retry e)
    then show ?thesis using "0.hyps" by simp
  qed
next
  case (Suc n)
  from Suc.prems show ?case
  proof (cases rule: retryLoop_cases[of attempt maxRetries options env initialDelay lastError])
    case stop
    then show ?thesis by (simp add: schedule_def attempts_def)
  next
    case (retry e)
    let ?next = "retryLoop options env maxRetries initialDelay (attempt + 1) (Some e)"
    have ih: "schedule ?next = backoff initialDelay (attempt + 1) (attempts ?next - 1)"
      using Suc.hyps(1)[of "attempt + 1" "Some e"] Suc.hyps(2) retry(3) by simp
    obtain m where m: "attempts ?next = Suc m"
      using retryLoop_attempts_pos[OF retry(3), of options env initialDelay "Some e"]
      by (cases "attempts ?next") auto
    have "schedule (after ([Attempt attempt]
                   @ (if attempt + 1 = maxRetries then [Diagnostics] else [])
                   @ [Wait (initialDelay * 2 ^ attempt)]) ?next)
            = Attempt attempt # Wait (initialDelay * 2 ^ attempt) # schedule ?next"
      by (simp add: schedule_def after_def)
    moreover have "attempts (after ([Attempt attempt]
                   @ (if attempt + 1 = maxRetries then [Diagnostics] else [])
                   @ [Wait (initialDelay * 2 ^ attempt)]) ?next) = Suc (Suc m)"
      using m by (simp add: attempts_def after_def)
    ultimately show ?thesis using ih m retry(4) by simp
  qed
qed

lemma retryLoop_result:
  "attempt \<le> maxRetries \<Longrightarrow>
   result (retryLoop options env maxRetries initialDelay attempt lastError)
     = attemptOnce options
         (env (attempt + attempts (retryLoop options env maxRetries initialDelay attempt lastError) - 1))"
proof (induction "maxRetries - attempt" arbitrary: attempt lastError)
  case 0
  from "0.prems" show ?case
  proof (cases rule: retryLoop_cases[of attempt maxRetries options env initialDelay lastError])
    case stop
    then show ?thesis by (simp add: attempts_def)
  next
    case (retry e)
    then show ?thesis using "0.hyps" by simp
  qed
next
  case (Suc n)
  from Suc.prems show ?case
  proof (cases rule: retryLoop_cases[of attempt maxRetries options env initialDelay lastError])
    case stop
    then show ?thesis by (simp add: attempts_def)
  next
    case (retry e)
    let ?next = "retryLoop options env maxRetries initialDelay (attempt + 1) (Some e)"
    have ih: "result ?next = attemptOnce options (env (attempt + 1 + attempts ?next - 1))"
      using Suc.hyps(1)[of "attempt + 1" "Some e"] Suc.hyps(2) retry(3) by simp
    obtain m where m: "attempts ?next = Suc m"
      using retryLoop_attempts_pos[OF retry(3), of options env initialDelay "Some e"]
      by (cases "attempts ?next") auto
    have "attempts (after ([Attempt attempt]
                   @ (if attempt + 1 = maxRetries then [Diagnostics] else [])
                   @ [Wait (initialDelay * 2 ^ attempt)]) ?next) = Suc (Suc m)"
      using m by (simp add: attempts_def after_def)
    moreover have "result (after ([Attempt attempt]
                   @ (if attempt + 1 = maxRetries then [Diagnostics] else [])
                   @ [Wait (initialDelay * 2 ^ attempt)]) ?next) = result ?next"
      by (simp add: after_def)
    ultimately show ?thesis using ih m retry(4) by simp
  qed
qed

text \<open>
  Claim C7. \<^verbatim>\<open>fetchWithRetry(url, options, maxRetries, initialDelay)\<close> makes at most
  \<open>maxRetries + 1\<close> attempts; its attempts and waits are attempt 0, a wait of
  \<open>initialDelay * 2 ^ 0\<close>, attempt 1, a wait of \<open>initialDelay * 2 ^ 1\<close>, and so on up to its
  last attempt, so that it waits \<open>initialDelay * 2 ^ attempt\<close> between attempt number
  \<open>attempt\<close> and the next; and when it has made all \<open>maxRetries + 1\<close> attempts and the last
  one throws, it throws that last error to its caller.
\<close>

theorem fetchWithRetry_bounded_backoff:
  "attempts (fetchWithRetry options env maxRetries initialDelay) \<le> maxRetries + 1
   \<and> schedule (fetchWithRetry options env maxRetries initialDelay)
       = backoff initialDelay 0 (attempts (fetchWithRetry options env maxRetries initialDelay) - 1)
   \<and> (attempts (fetchWithRetry options env maxRetries initialDelay) = maxRetries + 1
        \<longrightarrow> (\<forall>e. attemptOnce options (env maxRetries) = Throws e
              \<longrightarrow> result (fetchWithRetry options env maxRetries initialDelay) = Throws e))"
  unfolding fetchWithRetry_def
  using retryLoop_attempts[of options env maxRetries initialDelay 0 None]
        retryLoop_schedule[of 0 maxRetries options env initialDelay None]
        retryLoop_result[of 0 maxRetries options env initialDelay None]
  by auto

theorem fetchWithRetry_bounded_backoff_witness:
  "attempts (fetchWithRetry \<lparr>timeout = None\<rparr>
      (\<lambda>attempt. Resolved \<lparr>status = 503, statusText = ''Service Unavailable''\<rparr>) 3 1000) = 3 + 1
   \<and> schedule (fetchWithRetry \<lparr>timeout = None\<rparr>
      (\<lambda>attempt. Resolved \<lparr>status = 503, statusText = ''Service Unavailable''\<rparr>) 3 1000)
      = [Attempt 0, Wait 1000, Attempt 1, Wait 2000, Attempt 2, Wait 4000, Attempt 3]
   \<and> result (fetchWithRetry \<lparr>timeout = None\<rparr>
      (\<lambda>attempt. Resolved \<lparr>status = 503, statusText = ''Service Unavailable''\<rparr>) 3 1000)
      = Throws (Some \<lparr>name = ''Error'', message = ''HTTP 503: Service Unavailable''\<rparr>)"
proof -
  let ?env = "\<lambda>attempt::nat. Resolved \<lparr>status = 503, statusText = ''Service Unavailable''\<rparr>"
  let ?run = "fetchWithRetry \<lparr>timeout = None\<rparr> ?env 3 1000"
  have n: "attempts ?run = 3 + 1" by (simp add: fetch_eval)
  have last: "attemptOnce \<lparr>timeout = None\<rparr> (?env 3)
                = Throws (Some \<lparr>name = ''Error'', message = ''HTTP 503: Service Unavailable''\<rparr>)"
    by (simp add: fetch_eval)
  have b: "backoff 1000 0 (3 + 1 - 1)
             = [Attempt 0, Wait 1000, Attempt 1, Wait 2000, Attempt 2, Wait 4000, Attempt 3]"
    by (simp add: numeral_3_eq_3)
  show ?thesis
    using fetchWithRetry_bounded_backoff[of "\<lparr>timeout = None\<rparr>" ?env 3 1000] n last b
    by simp
qed

text \<open>
  Claim C8. The claim counts a timeout abort among the transient errors that are retried.
  The timer of an attempt aborts the request with the reason
  \<^verbatim>\<open>new Error(`Request timeout after ...s`)\<close>, whose name is \<^verbatim>\<open>Error\<close>, while the
  classification asks for the name \<^verbatim>\<open>AbortError\<close> together with \<^verbatim>\<open>timeout\<close> in the
  message. With the arguments of \<^verbatim>\<open>loadMoreChunk\<close> (a timeout of 30000 ms, 2 retries, an
  initial delay of 1500 ms) and a server that never answers, the first timeout is thrown
  to the caller after a single attempt and no wait.
\<close>

theorem fetchWithRetry_timeout_not_retried:
  "fetchWithRetry \<lparr>timeout = Some 30000\<rparr> (\<lambda>attempt. Unsettled) 2 1500
     = \<lparr>result = Throws (Some \<lparr>name = ''Error'', message = ''Request timeout after 30s''\<rparr>),
        trace = [Attempt 0]\<rparr>"
  by (simp add: fetch_eval)

section \<open>Properties of the manual ID lists\<close>

lemma dropWhile_none: "\<forall>c \<in> set s. \<not> P c \<Longrightarrow> dropWhile P s = s"
  by (cases s) auto

lemma trim_no_space: "\<forall>c \<in> set s. \<not> isWhiteSpace c \<Longrightarrow> trim s = s"
  unfolding trim_def by (simp add: dropWhile_none)

lemma split_last:
  "dropWhile (\<lambda>c. \<not> isSeparator c) s = [] \<Longrightarrow> split s = [takeWhile (\<lambda>c. \<not> isSeparator c) s]"
  by (subst split.simps) (simp add: Let_def)

lemma split_more:
  "dropWhile (\<lambda>c. \<not> isSeparator c) s \<noteq> [] \<Longrightarrow>
   split s = takeWhile (\<lambda>c. \<not> isSeparator c) s
               # split (dropWhile isSeparator (dropWhile (\<lambda>c. \<not> isSeparator c) s))"
  by (subst split.simps) (simp only: Let_def if_False)

lemma split_pieces_sep_free: "p \<in> set (split s) \<Longrightarrow> c \<in> set p \<Longrightarrow> \<not> isSeparator c"
proof (induction s arbitrary: p rule: split.induct)
  case (1 s)
  let ?rest = "dropWhile (\<lambda>c. \<not> isSeparator c) s"
  have tw: "c \<in> set (takeWhile (\<lambda>c. \<not> isSeparator c) s) \<Longrightarrow> \<not> isSeparator c" for c
    by (auto dest: set_takeWhileD)
  show ?case
  proof (cases "?rest = []")
    case True
    then have "p = takeWhile (\<lambda>c. \<not> isSeparator c) s"
      using "1.prems"(1) split_last[OF True] by simp
    then show ?thesis using tw "1.prems"(2) by simp
  next
    case False
    then have "p = takeWhile (\<lambda>c. \<not> isSeparator c) s \<or> p \<in> set (split (dropWhile isSeparator ?rest))"
      using "1.prems"(1) split_more[OF False] by simp
    then show ?thesis
      using tw "1.prems"(2) "1.IH"[OF refl refl False] by auto
  qed
qed

lemma map_trim_split: "map trim (split s) = split s"
proof (rule map_idI)
  fix p assume "p \<in> set (split s)"
  then have "\<forall>c \<in> set p. \<not> isWhiteSpace c"
    using split_pieces_sep_free[of p s] by (auto simp: isSeparator_def)
  then show "trim p = p" by (rule trim_no_space)
qed

lemma listValues_eq: "listValues s = filter (\<lambda>p. p \<noteq> []) (split s)"
  by (simp add: listValues_def map_trim_split)

lemma listValues_tokens:
  "v \<in> set (listValues s) \<Longrightarrow> v \<noteq> [] \<and> (\<forall>c \<in> set v. \<not> isSeparator c)"
  using split_pieces_sep_free[of v s] by (auto simp: listValues_eq)

lemma filter_takeWhile_drop:
  "filter P s = filter P (takeWhile Q s) @ filter P (dropWhile Q s)"
proof -
  have "filter P s = filter P (takeWhile Q s @ dropWhile Q s)" by simp
  then show ?thesis by (simp only: filter_append)
qed

lemma concat_split: "concat (split s) = filter (\<lambda>c. \<not> isSeparator c) s"
proof (induction s rule: split.induct)
  case (1 s)
  let ?rest = "dropWhile (\<lambda>c. \<not> isSeparator c) s"
  let ?piece = "takeWhile (\<lambda>c. \<not> isSeparator c) s"
  have fp: "filter (\<lambda>c. \<not> isSeparator c) ?piece = ?piece"
    by (rule filter_True) (auto dest: set_takeWhileD)
  have fs: "filter (\<lambda>c. \<not> isSeparator c) s = ?piece @ filter (\<lambda>c. \<not> isSeparator c) ?rest"
    using filter_takeWhile_drop[of "\<lambda>c. \<not> isSeparator c" s "\<lambda>c. \<not> isSeparator c"] fp
    by simp
  show ?case
  proof (cases "?rest = []")
    case True
    then show ?thesis using split_last[OF True] fs by simp
  next
    case False
    have "filter (\<lambda>c. \<not> isSeparator c) (takeWhile isSeparator ?rest) = []"
      by (auto simp: filter_empty_conv dest: set_takeWhileD)
    then have fr: "filter (\<lambda>c. \<not> isSeparator c) ?rest
            = filter (\<lambda>c. \<not> isSeparator c) (dropWhile isSeparator ?rest)"
      using filter_takeWhile_drop[of "\<lambda>c. \<not> isSeparator c" ?rest isSeparator] by simp
    have "concat (split s) = ?piece @ concat (split (dropWhile isSeparator ?rest))"
      using split_more[OF False] by simp
    also have "\<dots> = ?piece @ filter (\<lambda>c. \<not> isSeparator c) (dropWhile isSeparator ?rest)"
      using "1.IH"[OF refl refl False] by simp
    finally show ?thesis using fs fr by simp
  qed
qed

lemma concat_filter_nonempty: "concat (filter (\<lambda>p. p \<noteq> []) ps) = concat ps"
  by (induction ps) auto

lemma concat_listValues: "concat (listValues s) = filter (\<lambda>c. \<not> isSeparator c) s"
  by (simp add: listValues_eq concat_filter_nonempty concat_split)

lemma split_Nil: "split [] = [[]]"
  by (rule split_last[of "[]", simplified])

lemma listValues_Nil: "listValues [] = []"
  by (simp add: listValues_eq split_Nil)

lemma trim_ends:
  assumes "s \<noteq> []" "\<not> isWhiteSpace (hd s)" "\<not> isWhiteSpace (last s)"
  shows "trim s = s"
proof -
  have 1: "dropWhile isWhiteSpace s = s" using assms by (cases s) auto
  obtain xs x where xs: "s = xs @ [x]" using assms(1) by (cases s rule: rev_cases) auto
  then have 2: "dropWhile isWhiteSpace (rev s) = rev s" using assms(3) by simp
  show ?thesis unfolding trim_def by (simp add: 1 2)
qed

text \<open>The text that lists the values \<open>ws\<close>, each followed by a comma.\<close>

lemma split_comma_list:
  assumes "\<forall>w \<in> set ws. w \<noteq> [] \<and> (\<forall>c \<in> set w. \<not> isSeparator c)"
  shows "split (concat (map (\<lambda>w. w @ '','') ws)) = ws @ [[]]"
  using assms
proof (induction ws)
  case Nil
  then show ?case by (simp add: split_Nil)
next
  case (Cons w ws)
  let ?rest = "concat (map (\<lambda>w. w @ '','') ws)"
  have w: "w \<noteq> []" "\<forall>c \<in> set w. \<not> isSeparator c" using Cons.prems by auto
  have sep: "isSeparator CHR '',''" by (simp add: isSeparator_def)
  have tw: "takeWhile (\<lambda>c. \<not> isSeparator c) (w @ CHR '','' # ?rest) = w"
    using w sep by (simp add: takeWhile_append2)
  have dw: "dropWhile (\<lambda>c. \<not> isSeparator c) (w @ CHR '','' # ?rest) = CHR '','' # ?rest"
    using w sep by (simp add: dropWhile_append2)
  have "dropWhile isSeparator ?rest = ?rest"
  proof (cases ws)
    case Nil then show ?thesis by simp
  next
    case (Cons v vs)
    then have "v \<noteq> []" "\<not> isSeparator (hd v)" using Cons.prems by (auto simp: hd_in_set)
    then show ?thesis using Cons by (cases v) auto
  qed
  then have dd: "dropWhile isSeparator (CHR '','' # ?rest) = ?rest" using sep by simp
  have "split (w @ CHR '','' # ?rest) = w # split ?rest"
    using split_more[of "w @ CHR '','' # ?rest"] tw dw dd by simp
  then show ?case using Cons by simp
qed

lemma listValues_comma_list:
  assumes "\<forall>w \<in> set ws. w \<noteq> [] \<and> (\<forall>c \<in> set w. \<not> isSeparator c)"
  shows "listValues (concat (map (\<lambda>w. w @ '','') ws)) = ws"
proof -
  have "filter (\<lambda>p. p \<noteq> []) ws = ws" using assms by (auto intro: filter_True)
  then show ?thesis by (simp add: listValues_eq split_comma_list[OF assms])
qed

lemma trim_comma_list:
  assumes "\<forall>w \<in> set ws. w \<noteq> [] \<and> (\<forall>c \<in> set w. \<not> isSeparator c)"
  shows "trim (concat (map (\<lambda>w. w @ '','') ws)) = concat (map (\<lambda>w. w @ '','') ws)"
proof (cases ws rule: rev_cases)
  case Nil
  then show ?thesis by (simp add: trim_def)
next
  case (snoc vs v)
  let ?s = "concat (map (\<lambda>w. w @ '','') ws)"
  have ne: "?s \<noteq> []" using snoc by simp
  have l: "last ?s = CHR '',''" using snoc by simp
  obtain u us where u: "ws = u # us" by (cases ws) (use snoc in auto)
  then have "u \<noteq> []" "\<not> isSeparator (hd u)" using assms by (auto simp: hd_in_set)
  then have "hd ?s = hd u" "\<not> isWhiteSpace (hd u)" using u by (auto simp: isSeparator_def)
  then show ?thesis using ne l by (intro trim_ends) (auto simp: isWhiteSpace_def)
qed

lemma getListFromInput_alt:
  "getListFromInput inputValue allowBatching =
     (if length (listValues (trim inputValue)) > 500 \<and> \<not> allowBatching
      then Inl (SkuLimitExceeded (length (listValues (trim inputValue))))
      else Inr (if listValues (trim inputValue) = [] then None
                else Some (listValues (trim inputValue))))"
proof (cases "trim inputValue = []")
  case True
  then show ?thesis by (simp add: getListFromInput_def listValues_Nil)
next
  case False
  then show ?thesis by (simp add: getListFromInput_def Let_def)
qed

lemma hijoValues_alt:
  "(if t \<noteq> [] then filter (\<lambda>s. s \<noteq> []) (split t) else []) = listValues t"
  by (cases "t = []") (simp_all add: listValues_eq split_Nil)

lemma validateBatchFilters_alt:
  "validateBatchFilters pnl =
     (if batchProcessHijoCheckbox pnl \<and> batchProcessPadreCheckbox pnl
         \<and> length (listValues (trim (skuHijoInput pnl))) > 500
         \<and> length (listValues (trim (skuPadreInput pnl))) > 500
      then \<lparr>valid = False, error = Some BatchConflict, needsBatching = False, batchType = None,
            batchValues = [], totalBatches = 0\<rparr>
      else if batchProcessHijoCheckbox pnl \<and> length (listValues (trim (skuHijoInput pnl))) > 500
      then \<lparr>valid = True, error = None, needsBatching = True, batchType = Some Hijo,
            batchValues = listValues (trim (skuHijoInput pnl)),
            totalBatches = (length (listValues (trim (skuHijoInput pnl))) + 499) div 500\<rparr>
      else if batchProcessPadreCheckbox pnl \<and> length (listValues (trim (skuPadreInput pnl))) > 500
      then \<lparr>valid = True, error = None, needsBatching = True, batchType = Some Padre,
            batchValues = listValues (trim (skuPadreInput pnl)),
            totalBatches = (length (listValues (trim (skuPadreInput pnl))) + 499) div 500\<rparr>
      else \<lparr>valid = True, error = None, needsBatching = False, batchType = None,
            batchValues = [], totalBatches = 0\<rparr>)"
proof (cases "trim (skuHijoInput pnl) = [] \<and> trim (skuPadreInput pnl) = []")
  case True
  then show ?thesis
    by (simp add: validateBatchFilters_def listValues_Nil)
next
  case False
  then have "validateBatchFilters pnl =
     (let hijoValues = listValues (trim (skuHijoInput pnl));
          padreValues = listValues (trim (skuPadreInput pnl));
            hijoBatchEnabled = batchProcessHijoCheckbox pnl;
            padreBatchEnabled = batchProcessPadreCheckbox pnl;
            hijoExceeds500 = (length hijoValues > 500);
            padreExceeds500 = (length padreValues > 500)
        in
        if hijoBatchEnabled \<and> padreBatchEnabled \<and> hijoExceeds500 \<and> padreExceeds500 then
          \<lparr>valid = False, error = Some BatchConflict, needsBatching = False, batchType = None,
           batchValues = [], totalBatches = 0\<rparr>
        else
          let (batchType, batchValues) =
                (if hijoBatchEnabled \<and> hijoExceeds500 then (Some Hijo, hijoValues)
                 else if padreBatchEnabled \<and> padreExceeds500 then (Some Padre, padreValues)
                 else (None, []))
          in
          \<lparr>valid = True, error = None, needsBatching = (batchType \<noteq> None),
           batchType = batchType, batchValues = batchValues,
           totalBatches =
             (if length batchValues > 0 then (length batchValues + 499) div 500 else 0)\<rparr>)"
    unfolding validateBatchFilters_def hijoValues_alt
    by (simp only: Let_def if_False)
  then show ?thesis
    by (simp add: Let_def)
qed

section \<open>Properties of the batches\<close>

lemma batchesFrom_more:
  "i < length vs \<Longrightarrow> batchesFrom i vs = take 500 (drop i vs) # batchesFrom (i + 500) vs"
  by (subst batchesFrom.simps) simp

lemma batchesFrom_done: "\<not> i < length vs \<Longrightarrow> batchesFrom i vs = []"
  by (subst batchesFrom.simps) simp

lemma concat_batchesFrom: "concat (batchesFrom i vs) = drop i vs"
proof (induction i vs rule: batchesFrom.induct)
  case (1 i vs)
  show ?case
  proof (cases "i < length vs")
    case True
    have "take 500 (drop i vs) @ drop (i + 500) vs = drop i vs"
      by (metis add.commute append_take_drop_id drop_drop)
    then show ?thesis using True "1.IH" by (simp add: batchesFrom_more)
  next
    case False
    then show ?thesis by (simp add: batchesFrom_done)
  qed
qed

lemma ceil_step:
  fixes n :: nat
  assumes "0 < n"
  shows "Suc ((n - 500 + 499) div 500) = (n + 499) div 500"
proof (cases "500 \<le> n")
  case True
  then obtain m where m: "n = m + 500" by (metis le_add_diff_inverse2)
  have "(m + 500 + 499) div 500 = (m + 499 + 500) div 500" by (simp add: add.commute add.left_commute)
  also have "\<dots> = Suc ((m + 499) div 500)" by simp
  finally show ?thesis using m by simp
next
  case False
  then have a: "n - 500 = 0" by simp
  have "(n + 499) div 500 = 1"
    using assms False by (intro div_nat_eqI) auto
  then show ?thesis using a by simp
qed


lemma length_batchesFrom: "length (batchesFrom i vs) = (length vs - i + 499) div 500"
proof (induction i vs rule: batchesFrom.induct)
  case (1 i vs)
  show ?case
  proof (cases "i < length vs")
    case True
    then have "length (batchesFrom i vs) = Suc ((length vs - (i + 500) + 499) div 500)"
      using "1.IH" by (simp add: batchesFrom_more)
    also have "\<dots> = (length vs - i + 499) div 500"
      using ceil_step[of "length vs - i"] True by simp
    finally show ?thesis .
  next
    case False
    then show ?thesis by (simp add: batchesFrom_done)
  qed
qed

lemma batchesFrom_sizes:
  "b \<in> set (batchesFrom i vs) \<Longrightarrow> 0 < length b \<and> length b \<le> 500"
proof (induction i vs rule: batchesFrom.induct)
  case (1 i vs)
  show ?case
  proof (cases "i < length vs")
    case True
    then show ?thesis using "1.IH" "1.prems" by (auto simp: batchesFrom_more)
  next
    case False
    then show ?thesis using "1.prems" by (simp add: batchesFrom_done)
  qed
qed

lemma batchesFrom_501:
  "length vs = 501 \<Longrightarrow> map length (batchesFrom 0 vs) = [500, 1]"
  by (simp add: batchesFrom_more batchesFrom_done)

lemma exportedPayloads_append [simp]:
  "exportedPayloads (xs @ ys) = exportedPayloads xs @ exportedPayloads ys"
  by (simp add: exportedPayloads_def map_filter_def)

lemma exportedPayloads_simps [simp]:
  "exportedPayloads [] = []"
  "exportedPayloads (Request (DataExport p) # evs) = p # exportedPayloads evs"
  "exportedPayloads (Request (DataFilter p) # evs) = exportedPayloads evs"
  "exportedPayloads (BatchDownloaded n # evs) = exportedPayloads evs"
  "exportedPayloads (Delay n # evs) = exportedPayloads evs"
  "exportedPayloads (BatchModalShown # evs) = exportedPayloads evs"
  "exportedPayloads (BatchCompleted n m # evs) = exportedPayloads evs"
  by (simp_all add: exportedPayloads_def map_filter_def)

lemma exportBatch_ok:
  assumes "\<forall>e. filterFetch step \<noteq> Rejects e" "exportFetch step = Succeeds blob"
  shows "\<exists>vars' evs'. exportBatch p n step (vars, evs) = Inr (vars', evs')
           \<and> exportedPayloads evs' = exportedPayloads evs @ [p]
           \<and> batchProcessCancelled vars' = batchProcessCancelled vars"
  using assms by (cases "filterFetch step") (auto simp: exportBatch_def Let_def)

lemma processBatches_exports:
  assumes "getFilterPayload pnl = Inr basePayload"
    and "\<forall>i. \<not> cancelPressed (env i) \<and> (\<forall>e. filterFetch (env i) \<noteq> Rejects e)
               \<and> exportFetch (env i) = Succeeds ()"
    and "\<not> batchProcessCancelled vars"
  shows "\<exists>vars' evs'. processBatches pnl type env i batches (vars, evs) = Inr (vars', evs')
           \<and> exportedPayloads evs' = exportedPayloads evs @ map (withBatch type basePayload) batches
           \<and> \<not> batchProcessCancelled vars'"
  using assms(3)
proof (induction batches arbitrary: i vars evs)
  case Nil
  then show ?case by simp
next
  case (Cons batch batches)
  have step: "\<not> cancelPressed (env i)" "\<forall>e. filterFetch (env i) \<noteq> Rejects e"
    "exportFetch (env i) = Succeeds ()" using assms(2) by auto
  have v: "vars\<lparr>batchProcessCancelled := False\<rparr> = vars" using Cons.prems by simp
  obtain vars1 evs1 where e1:
    "exportBatch (withBatch type basePayload batch) (i + 1) (env i) (vars, evs) = Inr (vars1, evs1)"
    "exportedPayloads evs1 = exportedPayloads evs @ [withBatch type basePayload batch]"
    "batchProcessCancelled vars1 = batchProcessCancelled vars"
    using exportBatch_ok[OF step(2) step(3)] by blast
  let ?evs2 = "if batches \<noteq> [] \<and> \<not> batchProcessCancelled vars1 then evs1 @ [Delay 500] else evs1"
  have e2: "exportedPayloads ?evs2 = exportedPayloads evs1" by simp
  have nc: "\<not> batchProcessCancelled vars1" using e1(3) Cons.prems by simp
  obtain vars' evs' where r:
    "processBatches pnl type env (i + 1) batches (vars1, ?evs2) = Inr (vars', evs')"
    "exportedPayloads evs' = exportedPayloads ?evs2 @ map (withBatch type basePayload) batches"
    "\<not> batchProcessCancelled vars'"
    using Cons.IH[OF nc, of "i + 1" ?evs2] by blast
  have "processBatches pnl type env i (batch # batches) (vars, evs)
          = processBatches pnl type env (i + 1) batches (vars1, ?evs2)"
    using step(1) Cons.prems assms(1) e1(1) v
    by (simp add: withBatch_def Let_def del: One_nat_def)
  then show ?case using r e1(2) e2 by simp
qed

section \<open>Properties of the payload\<close>

lemma setProperty_values:
  "(\<forall>(k, v) \<in> set kvs. P v) \<Longrightarrow> P v' \<Longrightarrow> \<forall>(k, v) \<in> set (setProperty k' v' kvs). P v"
  by (induction kvs) (auto split: if_splits)

lemma getListFromInput_bounded:
  "getListFromInput inputValue False = Inr (Some vs) \<Longrightarrow> length vs \<le> 500"
  by (auto simp: getListFromInput_alt split: if_splits)

lemma collectCustomTextFilters_bounded:
  "collectCustomTextFilters inputs acc = Inr kvs \<Longrightarrow>
   \<forall>(k, v) \<in> set acc. length v \<le> 500 \<Longrightarrow>
   \<forall>(k, v) \<in> set kvs. length v \<le> 500"
proof (induction inputs arbitrary: acc)
  case Nil
  then show ?case by simp
next
  case (Cons input inputs)
  obtain columnName inputValue where i: "input = (columnName, inputValue)" by (cases input)
  show ?case
  proof (cases "getListFromInput inputValue False")
    case (Inl e)
    then show ?thesis using Cons.prems(1) i by simp
  next
    case (Inr r)
    show ?thesis
    proof (cases r)
      case None
      then show ?thesis using Cons Inr i by simp
    next
      case (Some vs)
      have "length vs \<le> 500" using Inr Some by (simp add: getListFromInput_bounded)
      then have "\<forall>(k, v) \<in> set (setProperty columnName vs acc). length v \<le> 500"
        using Cons.prems(2) by (intro setProperty_values) auto
      then show ?thesis using Cons.IH[of "setProperty columnName vs acc"] Cons.prems(1) Inr Some i
        by simp
    qed
  qed
qed

lemma getFilterPayload_Inr:
  assumes "getFilterPayload pnl = Inr p"
  shows "\<exists>custom.
           collectCustomTextFilters (customTextFilterInputs pnl) [] = Inr custom
         \<and> custom_text_filters p = (if length custom > 0 then Some custom else None)
         \<and> getListFromInput (skuHijoInput pnl) (batchProcessHijoCheckbox pnl)
              = Inr (sku_hijo_manual_list p)
         \<and> getListFromInput (skuPadreInput pnl) (batchProcessPadreCheckbox pnl)
              = Inr (sku_padre_manual_list p)
         \<and> getListFromInput (ticketFilterInput pnl) False = Inr (ticket_manual_list p)
         \<and> getListFromInput (lineamientoFilterInput pnl) False = Inr (lineamiento_manual_list p)"
proof -
  obtain custom where c: "collectCustomTextFilters (customTextFilterInputs pnl) [] = Inr custom"
    using assms unfolding getFilterPayload_def
    by (cases "collectCustomTextFilters (customTextFilterInputs pnl) []") simp_all
  obtain h where h: "getListFromInput (skuHijoInput pnl) (batchProcessHijoCheckbox pnl) = Inr h"
    using assms c unfolding getFilterPayload_def
    by (cases "getListFromInput (skuHijoInput pnl) (batchProcessHijoCheckbox pnl)") simp_all
  obtain pa where pa: "getListFromInput (skuPadreInput pnl) (batchProcessPadreCheckbox pnl) = Inr pa"
    using assms c h unfolding getFilterPayload_def
    by (cases "getListFromInput (skuPadreInput pnl) (batchProcessPadreCheckbox pnl)") simp_all
  obtain t where t: "getListFromInput (ticketFilterInput pnl) False = Inr t"
    using assms c h pa unfolding getFilterPayload_def
    by (cases "getListFromInput (ticketFilterInput pnl) False") simp_all
  obtain l where l: "getListFromInput (lineamientoFilterInput pnl) False = Inr l"
    using assms c h pa t unfolding getFilterPayload_def
    by (cases "getListFromInput (lineamientoFilterInput pnl) False") simp_all
  have "p = \<lparr>blob_filename = currentBlobFilename pnl,
               value_filters = collectValueFilters (filterSelects pnl) [],
               use_sku_hijo_file = skuHijoFileLoaded pnl,
               extend_sku_hijo = extendSkuHijoCheckbox pnl,
               sku_hijo_manual_list = h,
               use_sku_padre_file = skuPadreFileLoaded pnl,
               sku_padre_manual_list = pa,
               ticket_manual_list = t,
               lineamiento_manual_list = l,
               selected_display_columns = currentSelectedDisplayColumns pnl,
               enable_priority_coloring =
                 (case priorityColoringToggle pnl of None \<Rightarrow> False | Some checked \<Rightarrow> checked),
               page = currentPage pnl,
               page_size = PAGE_SIZE,
               custom_text_filters =
                 (if length custom > 0 then Some custom else None)\<rparr>"
    using assms unfolding getFilterPayload_def by (simp only: c h pa t l sum.case sum.inject)
  then show ?thesis using c h pa t l by simp
qed


lemma getListFromInput_error:
  "getListFromInput inputValue allowBatching = Inl e \<Longrightarrow> \<exists>k>500. e = SkuLimitExceeded k"
  by (auto simp: getListFromInput_alt split: if_splits)

lemma collectCustomTextFilters_error:
  "collectCustomTextFilters inputs acc = Inl e \<Longrightarrow> \<exists>k>500. e = SkuLimitExceeded k"
proof (induction inputs arbitrary: acc)
  case Nil
  then show ?case by simp
next
  case (Cons input inputs)
  obtain columnName inputValue where i: "input = (columnName, inputValue)" by (cases input)
  show ?case
  proof (cases "getListFromInput inputValue False")
    case (Inl e')
    then show ?thesis using Cons.prems i getListFromInput_error[of inputValue False e'] by simp
  next
    case (Inr r)
    then show ?thesis using Cons i by (cases r) auto
  qed
qed

lemma getFilterPayload_error:
  assumes "getFilterPayload pnl = Inl e"
  shows "\<exists>k>500. e = SkuLimitExceeded k"
proof (cases "collectCustomTextFilters (customTextFilterInputs pnl) []")
  case (Inl e1)
  then show ?thesis using assms collectCustomTextFilters_error[OF Inl]
    by (simp add: getFilterPayload_def)
next
  case c: (Inr custom)
  show ?thesis
  proof (cases "getListFromInput (skuHijoInput pnl) (batchProcessHijoCheckbox pnl)")
    case (Inl e1)
    then show ?thesis using assms c getListFromInput_error[OF Inl]
      by (simp add: getFilterPayload_def)
  next
    case h: (Inr hl)
    show ?thesis
    proof (cases "getListFromInput (skuPadreInput pnl) (batchProcessPadreCheckbox pnl)")
      case (Inl e1)
      then show ?thesis using assms c h getListFromInput_error[OF Inl]
        by (simp add: getFilterPayload_def)
    next
      case pa: (Inr pl)
      show ?thesis
      proof (cases "getListFromInput (ticketFilterInput pnl) False")
        case (Inl e1)
        then show ?thesis using assms c h pa getListFromInput_error[OF Inl]
          by (simp add: getFilterPayload_def)
      next
        case t: (Inr tl)
        show ?thesis
        proof (cases "getListFromInput (lineamientoFilterInput pnl) False")
          case (Inl e1)
          then show ?thesis using assms c h pa t getListFromInput_error[OF Inl]
            by (simp add: getFilterPayload_def)
        next
          case (Inr ll)
          then show ?thesis using assms c h pa t by (simp add: getFilterPayload_def)
        qed
      qed
    qed
  qed
qed

lemma getFilterPayload_fails:
  assumes "(\<exists>e. getListFromInput (skuHijoInput pnl) (batchProcessHijoCheckbox pnl) = Inl e)
         \<or> (\<exists>e. getListFromInput (skuPadreInput pnl) (batchProcessPadreCheckbox pnl) = Inl e)
         \<or> (\<exists>e. getListFromInput (ticketFilterInput pnl) False = Inl e)
         \<or> (\<exists>e. getListFromInput (lineamientoFilterInput pnl) False = Inl e)"
  shows "\<exists>k>500. getFilterPayload pnl = Inl (SkuLimitExceeded k)"
proof (cases "getFilterPayload pnl")
  case (Inl e)
  then show ?thesis using getFilterPayload_error[OF Inl] by auto
next
  case (Inr p)
  then show ?thesis using getFilterPayload_Inr[OF Inr] assms by auto
qed

section \<open>Properties of the filter pipeline\<close>

lemma listValues_commaList_replicate:
  "listValues (trim (commaList (replicate n ''7''))) = replicate n ''7''"
proof -
  have tok: "\<forall>w \<in> set (replicate n ''7''). w \<noteq> [] \<and> (\<forall>c \<in> set w. \<not> isSeparator c)"
    by (auto simp: isSeparator_def isWhiteSpace_def)
  show ?thesis
    unfolding commaList_def
    by (simp only: trim_comma_list[OF tok] listValues_comma_list[OF tok])
qed

lemma validateBatchFilters_currentPage:
  "validateBatchFilters (pnl\<lparr>currentPage := pg\<rparr>) = validateBatchFilters pnl"
  by (simp add: validateBatchFilters_alt)

text \<open>
  Claim C9, as amended. Every manual ID list of a payload that \<^verbatim>\<open>getFilterPayload\<close> builds
  is the list of the values of its input: the input text is cut at the runs of commas,
  semicolons and white space, and the empty pieces are dropped, so that every value is
  non-empty and free of separators and the values, put together, are the characters of
  the text that are not separators. Duplicate identifiers are kept. The list of the ticket
  input, of the lineamiento input and of every custom text filter holds at most 500 values,
  and so does the list of the SKU hijo or SKU padre input unless batch processing is
  enabled for that input.
\<close>

theorem manual_lists_tokenized_and_bounded:
  "(getFilterPayload pnl = Inr p \<longrightarrow>
      sku_hijo_manual_list p =
        (if listValues (trim (skuHijoInput pnl)) = [] then None
         else Some (listValues (trim (skuHijoInput pnl))))
    \<and> sku_padre_manual_list p =
        (if listValues (trim (skuPadreInput pnl)) = [] then None
         else Some (listValues (trim (skuPadreInput pnl))))
    \<and> ticket_manual_list p =
        (if listValues (trim (ticketFilterInput pnl)) = [] then None
         else Some (listValues (trim (ticketFilterInput pnl))))
    \<and> lineamiento_manual_list p =
        (if listValues (trim (lineamientoFilterInput pnl)) = [] then None
         else Some (listValues (trim (lineamientoFilterInput pnl))))
    \<and> (\<not> batchProcessHijoCheckbox pnl \<longrightarrow> length (listValues (trim (skuHijoInput pnl))) \<le> 500)
    \<and> (\<not> batchProcessPadreCheckbox pnl \<longrightarrow> length (listValues (trim (skuPadreInput pnl))) \<le> 500)
    \<and> length (listValues (trim (ticketFilterInput pnl))) \<le> 500
    \<and> length (listValues (trim (lineamientoFilterInput pnl))) \<le> 500
    \<and> (\<forall>(k, v) \<in> set (case custom_text_filters p of None \<Rightarrow> [] | Some kvs \<Rightarrow> kvs).
          length v \<le> 500))
   \<and> (\<forall>v \<in> set (listValues text). v \<noteq> [] \<and> (\<forall>c \<in> set v. \<not> isSeparator c))
   \<and> concat (listValues text) = filter (\<lambda>c. \<not> isSeparator c) text"
proof (intro conjI impI)
  assume p: "getFilterPayload pnl = Inr p"
  obtain custom where c:
    "collectCustomTextFilters (customTextFilterInputs pnl) [] = Inr custom"
    "custom_text_filters p = (if length custom > 0 then Some custom else None)"
    and h: "getListFromInput (skuHijoInput pnl) (batchProcessHijoCheckbox pnl)
              = Inr (sku_hijo_manual_list p)"
    and pa: "getListFromInput (skuPadreInput pnl) (batchProcessPadreCheckbox pnl)
              = Inr (sku_padre_manual_list p)"
    and t: "getListFromInput (ticketFilterInput pnl) False = Inr (ticket_manual_list p)"
    and l: "getListFromInput (lineamientoFilterInput pnl) False = Inr (lineamiento_manual_list p)"
    using getFilterPayload_Inr[OF p] by blast
  show "sku_hijo_manual_list p =
        (if listValues (trim (skuHijoInput pnl)) = [] then None
         else Some (listValues (trim (skuHijoInput pnl))))"
    using h by (simp add: getListFromInput_alt split: if_splits)
  show "sku_padre_manual_list p =
        (if listValues (trim (skuPadreInput pnl)) = [] then None
         else Some (listValues (trim (skuPadreInput pnl))))"
    using pa by (simp add: getListFromInput_alt split: if_splits)
  show "ticket_manual_list p =
        (if listValues (trim (ticketFilterInput pnl)) = [] then None
         else Some (listValues (trim (ticketFilterInput pnl))))"
    using t by (simp add: getListFromInput_alt split: if_splits)
  show "lineamiento_manual_list p =
        (if listValues (trim (lineamientoFilterInput pnl)) = [] then None
         else Some (listValues (trim (lineamientoFilterInput pnl))))"
    using l by (simp add: getListFromInput_alt split: if_splits)
  show "length (listValues (trim (skuHijoInput pnl))) \<le> 500" if "\<not> batchProcessHijoCheckbox pnl"
    using h that by (simp add: getListFromInput_alt split: if_splits)
  show "length (listValues (trim (skuPadreInput pnl))) \<le> 500" if "\<not> batchProcessPadreCheckbox pnl"
    using pa that by (simp add: getListFromInput_alt split: if_splits)
  show "length (listValues (trim (ticketFilterInput pnl))) \<le> 500"
    using t by (simp add: getListFromInput_alt split: if_splits)
  show "length (listValues (trim (lineamientoFilterInput pnl))) \<le> 500"
    using l by (simp add: getListFromInput_alt split: if_splits)
  have "\<forall>(k, v) \<in> set custom. length v \<le> 500"
    using collectCustomTextFilters_bounded[OF c(1)] by simp
  then show "\<forall>(k, v) \<in> set (case custom_text_filters p of None \<Rightarrow> [] | Some kvs \<Rightarrow> kvs).
          length v \<le> 500"
    using c(2) by (auto split: if_splits)
next
  show "\<forall>v \<in> set (listValues text). v \<noteq> [] \<and> (\<forall>c \<in> set v. \<not> isSeparator c)"
    using listValues_tokens by blast
  show "concat (listValues text) = filter (\<lambda>c. \<not> isSeparator c) text"
    by (rule concat_listValues)
qed

theorem manual_lists_tokenized_and_bounded_witness:
  "getFilterPayload (blankPanel\<lparr>skuHijoInput := ''1001, 1002;1001''\<rparr>)
     = Inr \<lparr>blob_filename = ''universo_peru.parquet'', value_filters = [],
            use_sku_hijo_file = False, extend_sku_hijo = False,
            sku_hijo_manual_list = Some [''1001'', ''1002'', ''1001''],
            use_sku_padre_file = False, sku_padre_manual_list = None,
            ticket_manual_list = None, lineamiento_manual_list = None,
            selected_display_columns = [], enable_priority_coloring = False,
            page = 1, page_size = 100, custom_text_filters = None\<rparr>
   \<and> listValues (trim ''1001, 1002;1001'') = [''1001'', ''1002'', ''1001'']
   \<and> length (listValues (trim ''1001, 1002;1001'')) \<le> 500"
proof -
  let ?pnl = "blankPanel\<lparr>skuHijoInput := ''1001, 1002;1001''\<rparr>"
  let ?p = "\<lparr>blob_filename = ''universo_peru.parquet'', value_filters = [],
            use_sku_hijo_file = False, extend_sku_hijo = False,
            sku_hijo_manual_list = Some [''1001'', ''1002'', ''1001''],
            use_sku_padre_file = False, sku_padre_manual_list = None,
            ticket_manual_list = None, lineamiento_manual_list = None,
            selected_display_columns = [], enable_priority_coloring = False,
            page = 1, page_size = 100, custom_text_filters = None\<rparr>"
  have p: "getFilterPayload ?pnl = Inr ?p" by code_simp
  have nb: "\<not> batchProcessHijoCheckbox ?pnl" by (simp add: blankPanel_def)
  have i: "skuHijoInput ?pnl = ''1001, 1002;1001''" by simp
  show ?thesis
    using manual_lists_tokenized_and_bounded[of ?pnl ?p "[]"] p nb i
    by (simp split: if_splits)
qed

text \<open>
  The claim C9 as it is stated fails: the identifier 1001 entered twice is in the payload
  twice.
\<close>

theorem manual_list_keeps_duplicates:
  "map_sum id sku_hijo_manual_list (getFilterPayload (blankPanel\<lparr>skuHijoInput := ''1001,1001''\<rparr>))
     = Inr (Some [''1001'', ''1001''])
   \<and> \<not> distinct [''1001'', ''1001'']"
  by code_simp

lemma ceil_bounds:
  fixes n :: nat
  shows "n \<le> 500 * ((n + 499) div 500)" and "500 * ((n + 499) div 500) < n + 500"
proof -
  have e: "500 * ((n + 499) div 500) + (n + 499) mod 500 = n + 499"
    by (rule mult_div_mod_eq)
  have r: "(n + 499) mod 500 < 500" by simp
  show "n \<le> 500 * ((n + 499) div 500)" using e r by linarith
  show "500 * ((n + 499) div 500) < n + 500" using e by linarith
qed


lemma handleBatchProcessing_exports:
  assumes "getFilterPayload pnl = Inr basePayload"
    and "\<forall>i. \<not> cancelPressed (env i) \<and> (\<forall>e. filterFetch (env i) \<noteq> Rejects e)
               \<and> exportFetch (env i) = Succeeds ()"
  shows "exportedPayloads (snd (handleBatchProcessing pnl validation env (vars, evs)))
           = exportedPayloads evs
             @ map (withBatch (batchType validation) basePayload)
                 (batchesFrom 0 (batchValues validation))"
proof -
  let ?vars = "vars\<lparr>batchProcessCancelled := False, notFoundHijo := [], notFoundPadre := []\<rparr>"
  have nc: "\<not> batchProcessCancelled ?vars" by simp
  obtain vars' evs' where r:
    "processBatches pnl (batchType validation) env 0 (batchesFrom 0 (batchValues validation))
       (?vars, evs @ [BatchModalShown]) = Inr (vars', evs')"
    "exportedPayloads evs' = exportedPayloads (evs @ [BatchModalShown])
       @ map (withBatch (batchType validation) basePayload) (batchesFrom 0 (batchValues validation))"
    "\<not> batchProcessCancelled vars'"
    using processBatches_exports[OF assms(1) assms(2) nc] by blast
  show ?thesis
    using r by (simp add: handleBatchProcessing_def Let_def)
qed

text \<open>
  Claim C3. For the value \<open>v\<close> of a manual ID-list input: with exactly 500 values,
  \<^verbatim>\<open>getListFromInput\<close> returns the list whether batching is allowed or not, and the input
  is not the one that \<^verbatim>\<open>validateBatchFilters\<close> selects for batching; with more than 500
  values and batching not allowed, \<^verbatim>\<open>getListFromInput\<close> throws the error that carries
  the number of values, and \<^verbatim>\<open>getFilterPayload\<close> fails with such an error instead of
  building a payload; with more than 500 values, batching enabled for the input and no
  conflict, \<^verbatim>\<open>validateBatchFilters\<close> asks for batching of exactly these values and counts
  \<open>\<lceil>n / 500\<rceil>\<close> batches. The batches that \<^verbatim>\<open>handleBatchProcessing\<close> cuts from any list
  of values are \<open>\<lceil>n / 500\<rceil>\<close> many, none empty and none longer than 500, and together
  they are the list; 501 values give a batch of 500 and a batch of 1. When every request
  succeeds and the user does not cancel, the export requests carry the batches one after
  the other, in order.
\<close>

theorem manual_list_limit_and_batching:
  "(length (listValues (trim v)) = 500 \<longrightarrow>
      getListFromInput v allowBatching = Inr (Some (listValues (trim v)))
      \<and> (skuHijoInput pnl = v \<longrightarrow> batchType (validateBatchFilters pnl) \<noteq> Some Hijo)
      \<and> (skuPadreInput pnl = v \<longrightarrow> batchType (validateBatchFilters pnl) \<noteq> Some Padre))
   \<and> (length (listValues (trim v)) > 500 \<longrightarrow>
      getListFromInput v False = Inl (SkuLimitExceeded (length (listValues (trim v))))
      \<and> ((skuHijoInput pnl = v \<and> \<not> batchProcessHijoCheckbox pnl)
           \<or> (skuPadreInput pnl = v \<and> \<not> batchProcessPadreCheckbox pnl)
           \<or> ticketFilterInput pnl = v \<or> lineamientoFilterInput pnl = v
          \<longrightarrow> (\<exists>k>500. getFilterPayload pnl = Inl (SkuLimitExceeded k))))
   \<and> (length (listValues (trim v)) > 500 \<and> valid (validateBatchFilters pnl)
        \<and> ((skuHijoInput pnl = v \<and> batchProcessHijoCheckbox pnl)
             \<or> (skuPadreInput pnl = v \<and> batchProcessPadreCheckbox pnl))
       \<longrightarrow> needsBatching (validateBatchFilters pnl)
         \<and> batchValues (validateBatchFilters pnl) = listValues (trim v)
         \<and> totalBatches (validateBatchFilters pnl) = (length (listValues (trim v)) + 499) div 500)
   \<and> length (batchesFrom 0 vals) = (length vals + 499) div 500
   \<and> length vals \<le> 500 * length (batchesFrom 0 vals)
   \<and> 500 * length (batchesFrom 0 vals) < length vals + 500
   \<and> concat (batchesFrom 0 vals) = vals
   \<and> (\<forall>b \<in> set (batchesFrom 0 vals). 0 < length b \<and> length b \<le> 500)
   \<and> (length vals = 501 \<longrightarrow> map length (batchesFrom 0 vals) = [500, 1])
   \<and> (getFilterPayload pnl = Inr basePayload
        \<and> (\<forall>i. \<not> cancelPressed (env i) \<and> (\<forall>e. filterFetch (env i) \<noteq> Rejects e)
                 \<and> exportFetch (env i) = Succeeds ())
       \<longrightarrow> exportedPayloads (snd (handleBatchProcessing pnl validation env (vars, [])))
             = map (withBatch (batchType validation) basePayload)
                 (batchesFrom 0 (batchValues validation)))"
proof (intro conjI impI)
  show "getListFromInput v allowBatching = Inr (Some (listValues (trim v)))"
    if "length (listValues (trim v)) = 500"
    using that by (auto simp: getListFromInput_alt)
  show "batchType (validateBatchFilters pnl) \<noteq> Some Hijo"
    if "length (listValues (trim v)) = 500" "skuHijoInput pnl = v"
    using that by (simp add: validateBatchFilters_alt)
  show "batchType (validateBatchFilters pnl) \<noteq> Some Padre"
    if "length (listValues (trim v)) = 500" "skuPadreInput pnl = v"
    using that by (simp add: validateBatchFilters_alt)
  show "getListFromInput v False = Inl (SkuLimitExceeded (length (listValues (trim v))))"
    if "length (listValues (trim v)) > 500"
    using that by (simp add: getListFromInput_alt)
  show "\<exists>k>500. getFilterPayload pnl = Inl (SkuLimitExceeded k)"
    if n: "length (listValues (trim v)) > 500"
      and f: "(skuHijoInput pnl = v \<and> \<not> batchProcessHijoCheckbox pnl)
           \<or> (skuPadreInput pnl = v \<and> \<not> batchProcessPadreCheckbox pnl)
           \<or> ticketFilterInput pnl = v \<or> lineamientoFilterInput pnl = v"
  proof (rule getFilterPayload_fails)
    show "(\<exists>e. getListFromInput (skuHijoInput pnl) (batchProcessHijoCheckbox pnl) = Inl e)
         \<or> (\<exists>e. getListFromInput (skuPadreInput pnl) (batchProcessPadreCheckbox pnl) = Inl e)
         \<or> (\<exists>e. getListFromInput (ticketFilterInput pnl) False = Inl e)
         \<or> (\<exists>e. getListFromInput (lineamientoFilterInput pnl) False = Inl e)"
      using n f by (auto simp: getListFromInput_alt)
  qed
  assume b: "length (listValues (trim v)) > 500 \<and> valid (validateBatchFilters pnl)
        \<and> ((skuHijoInput pnl = v \<and> batchProcessHijoCheckbox pnl)
             \<or> (skuPadreInput pnl = v \<and> batchProcessPadreCheckbox pnl))"
  show "needsBatching (validateBatchFilters pnl)"
    using b by (auto simp: validateBatchFilters_alt split: if_splits)
  show "batchValues (validateBatchFilters pnl) = listValues (trim v)"
    using b by (auto simp: validateBatchFilters_alt split: if_splits)
  show "totalBatches (validateBatchFilters pnl) = (length (listValues (trim v)) + 499) div 500"
    using b by (auto simp: validateBatchFilters_alt split: if_splits)
next
  show l: "length (batchesFrom 0 vals) = (length vals + 499) div 500"
    by (simp add: length_batchesFrom)
  show "length vals \<le> 500 * length (batchesFrom 0 vals)"
    unfolding l by (rule ceil_bounds)
  show "500 * length (batchesFrom 0 vals) < length vals + 500"
    unfolding l by (rule ceil_bounds)
  show "concat (batchesFrom 0 vals) = vals"
    by (simp add: concat_batchesFrom)
  show "\<forall>b \<in> set (batchesFrom 0 vals). 0 < length b \<and> length b \<le> 500"
    using batchesFrom_sizes by blast
  show "map length (batchesFrom 0 vals) = [500, 1]" if "length vals = 501"
    using that by (rule batchesFrom_501)
next
  assume a: "getFilterPayload pnl = Inr basePayload
        \<and> (\<forall>i. \<not> cancelPressed (env i) \<and> (\<forall>e. filterFetch (env i) \<noteq> Rejects e)
                 \<and> exportFetch (env i) = Succeeds ())"
  show "exportedPayloads (snd (handleBatchProcessing pnl validation env (vars, [])))
             = map (withBatch (batchType validation) basePayload)
                 (batchesFrom 0 (batchValues validation))"
    using handleBatchProcessing_exports[of pnl basePayload env validation vars "[]"] a by simp
qed

lemma trim_Nil: "trim [] = []"
  by (simp add: trim_def)

theorem manual_list_limit_and_batching_witness:
  "length (listValues (trim (commaList (replicate 500 ''7'')))) = 500
   \<and> getListFromInput (commaList (replicate 500 ''7'')) False = Inr (Some (replicate 500 ''7''))
   \<and> batchType (validateBatchFilters
         (blankPanel\<lparr>skuHijoInput := commaList (replicate 500 ''7''),
                      batchProcessHijoCheckbox := True\<rparr>)) \<noteq> Some Hijo
   \<and> length (listValues (trim (commaList (replicate 501 ''7'')))) > 500
   \<and> getListFromInput (commaList (replicate 501 ''7'')) False = Inl (SkuLimitExceeded 501)
   \<and> (\<exists>k>500. getFilterPayload (blankPanel\<lparr>skuHijoInput := commaList (replicate 501 ''7'')\<rparr>)
                  = Inl (SkuLimitExceeded k))
   \<and> valid (validateBatchFilters
         (blankPanel\<lparr>skuHijoInput := commaList (replicate 501 ''7''),
                      batchProcessHijoCheckbox := True\<rparr>))
   \<and> needsBatching (validateBatchFilters
         (blankPanel\<lparr>skuHijoInput := commaList (replicate 501 ''7''),
                      batchProcessHijoCheckbox := True\<rparr>))
   \<and> batchValues (validateBatchFilters
         (blankPanel\<lparr>skuHijoInput := commaList (replicate 501 ''7''),
                      batchProcessHijoCheckbox := True\<rparr>)) = replicate 501 ''7''
   \<and> totalBatches (validateBatchFilters
         (blankPanel\<lparr>skuHijoInput := commaList (replicate 501 ''7''),
                      batchProcessHijoCheckbox := True\<rparr>)) = 2
   \<and> map length (batchesFrom 0 (replicate 501 ''7'')) = [500, 1]
   \<and> map sku_hijo_manual_list
        (exportedPayloads (snd (handleBatchProcessing
           (blankPanel\<lparr>skuHijoInput := commaList (replicate 501 ''7''),
                        batchProcessHijoCheckbox := True\<rparr>)
           (validateBatchFilters
              (blankPanel\<lparr>skuHijoInput := commaList (replicate 501 ''7''),
                           batchProcessHijoCheckbox := True\<rparr>))
           (\<lambda>i. sampleStep) (batchVars loadedApp, []))))
       = [Some (replicate 500 ''7''), Some [''7'']]"
proof -
  let ?v500 = "commaList (replicate 500 ''7'')"
  let ?v501 = "commaList (replicate 501 ''7'')"
  let ?p500 = "blankPanel\<lparr>skuHijoInput := ?v500, batchProcessHijoCheckbox := True\<rparr>"
  let ?p501 = "blankPanel\<lparr>skuHijoInput := ?v501\<rparr>"
  let ?pb = "blankPanel\<lparr>skuHijoInput := ?v501, batchProcessHijoCheckbox := True\<rparr>"
  let ?base = "\<lparr>blob_filename = ''universo_peru.parquet'', value_filters = [],
            use_sku_hijo_file = False, extend_sku_hijo = False,
            sku_hijo_manual_list = Some (replicate 501 ''7''),
            use_sku_padre_file = False, sku_padre_manual_list = None,
            ticket_manual_list = None, lineamiento_manual_list = None,
            selected_display_columns = [], enable_priority_coloring = False,
            page = 1, page_size = 100, custom_text_filters = None\<rparr>"
  have n500: "length (listValues (trim ?v500)) = 500"
    by (simp add: listValues_commaList_replicate)
  have n501: "length (listValues (trim ?v501)) > 500"
    by (simp add: listValues_commaList_replicate)
  have i1: "skuHijoInput ?p500 = ?v500" by simp
  have i2: "skuHijoInput ?p501 = ?v501 \<and> \<not> batchProcessHijoCheckbox ?p501"
    by (simp add: blankPanel_def)
  have i3: "skuHijoInput ?pb = ?v501 \<and> batchProcessHijoCheckbox ?pb" by simp
  have val: "valid (validateBatchFilters ?pb)"
    by (simp add: validateBatchFilters_alt blankPanel_def trim_Nil listValues_Nil)
  have bt: "batchType (validateBatchFilters ?pb) = Some Hijo"
    by (simp add: validateBatchFilters_alt blankPanel_def trim_Nil listValues_Nil
        listValues_commaList_replicate)
  have base: "getFilterPayload ?pb = Inr ?base"
    by (simp add: getFilterPayload_def blankPanel_def getListFromInput_alt trim_Nil
        listValues_Nil listValues_commaList_replicate PAGE_SIZE_def)
  have env: "\<forall>i. \<not> cancelPressed ((\<lambda>i. sampleStep) i)
               \<and> (\<forall>e. filterFetch ((\<lambda>i. sampleStep) i) \<noteq> Rejects e)
               \<and> exportFetch ((\<lambda>i. sampleStep) i) = Succeeds ()"
    by (simp add: sampleStep_def)
  have l501: "length (replicate 501 ''7'') = 501" by simp
  have bs: "batchesFrom 0 (replicate 501 ''7'') = [replicate 500 ''7'', [''7'']]"
    by (simp add: batchesFrom_more batchesFrom_done)
  note A = manual_list_limit_and_batching[of ?v500 False ?p500 "replicate 501 ''7''" ?base
             "\<lambda>i. sampleStep" "validateBatchFilters ?pb" "batchVars loadedApp"]
  note B = manual_list_limit_and_batching[of ?v501 False ?p501 "replicate 501 ''7''" ?base
             "\<lambda>i. sampleStep" "validateBatchFilters ?pb" "batchVars loadedApp"]
  note C = manual_list_limit_and_batching[of ?v501 False ?pb "replicate 501 ''7''" ?base
             "\<lambda>i. sampleStep" "validateBatchFilters ?pb" "batchVars loadedApp"]
  have c1: "getListFromInput ?v500 False = Inr (Some (replicate 500 ''7''))"
    using A n500 by (simp add: listValues_commaList_replicate)
  have c2: "batchType (validateBatchFilters ?p500) \<noteq> Some Hijo"
    using A n500 i1 by blast
  have c3: "getListFromInput ?v501 False = Inl (SkuLimitExceeded 501)"
    using B n501 by (simp add: listValues_commaList_replicate)
  have c4: "\<exists>k>500. getFilterPayload ?p501 = Inl (SkuLimitExceeded k)"
    using B n501 i2 by blast
  have c5: "needsBatching (validateBatchFilters ?pb)
            \<and> batchValues (validateBatchFilters ?pb) = listValues (trim ?v501)
            \<and> totalBatches (validateBatchFilters ?pb) = (length (listValues (trim ?v501)) + 499) div 500"
    using C n501 val i3 by blast
  have c6: "map length (batchesFrom 0 (replicate 501 ''7'')) = [500, 1]"
    using C l501 by blast
  have c7: "exportedPayloads (snd (handleBatchProcessing ?pb (validateBatchFilters ?pb)
               (\<lambda>i. sampleStep) (batchVars loadedApp, [])))
             = map (withBatch (batchType (validateBatchFilters ?pb)) ?base)
                 (batchesFrom 0 (batchValues (validateBatchFilters ?pb)))"
    using C base env by blast
  have c8: "map sku_hijo_manual_list
              (exportedPayloads (snd (handleBatchProcessing ?pb (validateBatchFilters ?pb)
               (\<lambda>i. sampleStep) (batchVars loadedApp, []))))
            = [Some (replicate 500 ''7''), Some [''7'']]"
    unfolding c7 using c5 bt bs
    by (simp add: listValues_commaList_replicate withBatch_def)
  show ?thesis
    using n500 c1 c2 n501 c3 c4 val c5 c6 c8
    by (simp add: listValues_commaList_replicate)
qed

text \<open>
  Claim C4. When a source is loaded, both the SKU hijo and the SKU padre input hold more
  than 500 values and batch processing is enabled for both, an application of the filters
  by the user (\<^verbatim>\<open>handleApplyFilters(page, false)\<close>, as the apply button, the Enter key and
  the pagination call it) shows the conflict alert and does nothing else: the events it
  adds are that alert alone, so no request is sent, no batch is started for either list,
  and the cache and the table are as before.
\<close>

theorem conflicting_batches_rejected:
  assumes "currentBlobDisplayName a \<noteq> []"
    and "dataSourceCache a (currentBlobDisplayName a) \<noteq> None"
    and "batchProcessHijoCheckbox (panel a)" and "batchProcessPadreCheckbox (panel a)"
    and "length (listValues (trim (skuHijoInput (panel a)))) > 500"
    and "length (listValues (trim (skuPadreInput (panel a)))) > 500"
  shows "handleApplyFilters env pg False a
           = a\<lparr>panel := (panel a)\<lparr>currentPage := pg\<rparr>,
               events := events a @ [ConflictAlert (Some BatchConflict)]\<rparr>"
proof -
  have v: "validateBatchFilters ((panel a)\<lparr>currentPage := pg\<rparr>)
             = \<lparr>valid = False, error = Some BatchConflict, needsBatching = False,
                batchType = None, batchValues = [], totalBatches = 0\<rparr>"
    using assms(3-6) by (simp add: validateBatchFilters_currentPage validateBatchFilters_alt)
  show ?thesis
    using assms(1,2) unfolding handleApplyFilters_def
    by (auto simp: Let_def v emit_def)
qed

theorem conflicting_batches_rejected_witness:
  "handleApplyFilters sampleApplyEnv 1 False
     (loadedApp\<lparr>panel := blankPanel\<lparr>skuHijoInput := commaList (replicate 501 ''7''),
                                     skuPadreInput := commaList (replicate 501 ''7''),
                                     batchProcessHijoCheckbox := True,
                                     batchProcessPadreCheckbox := True\<rparr>\<rparr>)
   = loadedApp\<lparr>panel := blankPanel\<lparr>skuHijoInput := commaList (replicate 501 ''7''),
                                     skuPadreInput := commaList (replicate 501 ''7''),
                                     batchProcessHijoCheckbox := True,
                                     batchProcessPadreCheckbox := True,
                                     currentPage := 1\<rparr>,
                events := [ConflictAlert (Some BatchConflict)]\<rparr>"
proof -
  let ?a = "loadedApp\<lparr>panel := blankPanel\<lparr>skuHijoInput := commaList (replicate 501 ''7''),
                                     skuPadreInput := commaList (replicate 501 ''7''),
                                     batchProcessHijoCheckbox := True,
                                     batchProcessPadreCheckbox := True\<rparr>\<rparr>"
  have 1: "currentBlobDisplayName ?a \<noteq> []" by (simp add: loadedApp_def)
  have 2: "dataSourceCache ?a (currentBlobDisplayName ?a) \<noteq> None" by (simp add: loadedApp_def)
  have 3: "batchProcessHijoCheckbox (panel ?a)" by simp
  have 4: "batchProcessPadreCheckbox (panel ?a)" by simp
  have 5: "length (listValues (trim (skuHijoInput (panel ?a)))) > 500"
    by (simp add: listValues_commaList_replicate)
  have 6: "length (listValues (trim (skuPadreInput (panel ?a)))) > 500"
    by (simp add: listValues_commaList_replicate)
  have e: "events ?a = []" by (simp add: loadedApp_def)
  show ?thesis
    using conflicting_batches_rejected[OF 1 2 3 4 5 6, of sampleApplyEnv 1] e by simp
qed

section \<open>Properties of the classification of results\<close>





section \<open>Properties of the SKUs not found in batches\<close>


lemma pushMissing_set: "set (pushMissing skus acc) = set acc \<union> set skus"
  by (induction skus arbitrary: acc) auto

lemma noDuplicates_cancelled [simp]:
  "noDuplicates (vars\<lparr>batchProcessCancelled := b\<rparr>) = noDuplicates vars"
  by (simp add: noDuplicates_def)





lemma showNat_nonempty: "showNat n \<noteq> []"
  by (subst showNat.simps) simp










section \<open>Properties of the lazy table\<close>










section \<open>Properties of the text filters\<close>












section \<open>Properties of the source cache\<close>

lemma attemptOnce_not_undefined: "attemptOnce options settled \<noteq> Throws None"
  by (auto simp: attemptOnce_def split: fetchSettled.splits option.splits)

lemma fetchWithRetry_result:
  "result (fetchWithRetry options env maxRetries initialDelay)
     = attemptOnce options
         (env (attempts (fetchWithRetry options env maxRetries initialDelay) - 1))"
  unfolding fetchWithRetry_def
  using retryLoop_result[of 0 maxRetries options env initialDelay None] by simp

lemma fetchWithRetry_not_undefined:
  "result (fetchWithRetry options env maxRetries initialDelay) \<noteq> Throws None"
  by (simp add: fetchWithRetry_result attemptOnce_not_undefined)


lemma sameSource_refl [simp]: "sameSource e e"
  by (simp add: sameSource_def)



























end
